theory Spec2Isabelle
  imports Complex_Main
begin

section \<open>The mochad dispatcher (mochad\_dispatch.py) in HOL\<close>

text \<open>
  The program keeps a TCP connection to the mochad daemon, reads it line by line, and
  posts every incoming RFSEC message to a REST entry point. This theory embeds the class
  \<^verbatim>\<open>MochadClient\<close>: its constructor, the line parser, the dispatch coroutine and
  the worker coroutine.

  A Python \<^verbatim>\<open>str\<close> is modelled as a \<open>string\<close>, one \<open>char\<close> standing for one
  code point (the protocol is ASCII; code points from 256 on are outside the model).
\<close>

subsection \<open>Python string primitives\<close>

text \<open>
  \<^verbatim>\<open>s[i:j]\<close> for literal bounds \<open>0 \<le> i \<le> j\<close>. Slicing clips bounds that lie beyond
  the end of the string, where indexing would raise: it has no error case.
\<close>

definition slice :: "'a list \<Rightarrow> nat \<Rightarrow> nat \<Rightarrow> 'a list" where
  "slice s i j = take (j - i) (drop i s)"

text \<open>\<^verbatim>\<open>str.isspace\<close> on one code point below 256.\<close>

definition isspace :: "char \<Rightarrow> bool" where
  "isspace c = ((of_char c :: nat) \<in> {9, 10, 11, 12, 13, 28, 29, 30, 31, 32, 133, 160})"

text \<open>\<^verbatim>\<open>s.rstrip()\<close>: the longest suffix of whitespace is removed.\<close>

definition rstrip :: "string \<Rightarrow> string" where
  "rstrip s = rev (dropWhile isspace (rev s))"

subsection \<open>The client object\<close>

text \<open>
  The fields of \<^verbatim>\<open>MochadClient\<close> that the code reads back. \<^verbatim>\<open>reconnect_time\<close> is the
  reconnect clock: a reading of \<^verbatim>\<open>time.time()\<close>, or 0 for "not reconnecting" (the code
  tests it for truth). The logger is modelled by the log actions below, the stream
  reader and writer by the environment of the worker.
\<close>

record client =
  host :: string
  entry_point :: string
  reconnect_time :: real

datatype py_error = IndexError | UnicodeDecodeError | ConnectionError | OtherError

text \<open>
  \<^verbatim>\<open>__init__\<close> (lines 17-27). \<^verbatim>\<open>self.entry_point[-1]\<close> raises IndexError on the
  empty string.
\<close>

definition MochadClient_init :: "string \<Rightarrow> string \<Rightarrow> py_error + client" where
  "MochadClient_init h ep =
     (if ep = [] then Inl IndexError
      else Inr \<lparr>host = h,
                entry_point = (if \<not> last ep = CHR ''/'' then ep @ ''/'' else ep),
                reconnect_time = 0\<rparr>)"

subsection \<open>The line parser\<close>

text \<open>
  \<^verbatim>\<open>parse_mochad_line\<close> (lines 29-39). The blank pair is the answer for a line that is
  not an incoming RFSEC message.
\<close>

definition parse_mochad_line :: "string \<Rightarrow> string \<times> string" where
  "parse_mochad_line line =
     (if slice line 15 23 \<noteq> ''Rx RFSEC'' then ('''', '''')
      else (slice line 30 38, drop 45 line))"

text \<open>
  What the read loop makes of the parser's answer (lines 121-126): a dispatch is
  spawned when both components are non-blank, and nothing happens otherwise. This is
  the event, or none, that one stripped line stands for.
\<close>

definition event_of :: "string \<times> string \<Rightarrow> (string \<times> string) option" where
  "event_of r = (case r of (addr, func) \<Rightarrow>
     if addr \<noteq> [] \<and> func \<noteq> [] then Some (addr, func) else None)"

subsection \<open>Library functions used by the dispatch\<close>

text \<open>
  \<^verbatim>\<open>str(n)\<close> for a non-negative integer: its decimal digits.
\<close>

definition digit :: "nat \<Rightarrow> char" where
  "digit d = char_of (48 + d)"

fun str_nat :: "nat \<Rightarrow> string" where
  "str_nat n = (if n < 10 then [digit n] else str_nat (n div 10) @ [digit (n mod 10)])"

declare str_nat.simps [simp del]

definition zfill :: "nat \<Rightarrow> string \<Rightarrow> string" where
  "zfill w s = replicate (w - length s) CHR ''0'' @ s"

text \<open>
  \<^verbatim>\<open>datetime.now(pytz.UTC)\<close> is a reading of the wall clock in UTC, and
  \<^verbatim>\<open>isoformat()\<close> prints it as \<^verbatim>\<open>YYYY-MM-DDTHH:MM:SS[.ffffff]+00:00\<close>: the
  fraction is left out when the microsecond is 0, and the offset of UTC is +00:00.
\<close>

record datetime =
  year :: nat
  month :: nat
  day :: nat
  hour :: nat
  minute :: nat
  second :: nat
  microsecond :: nat

definition isoformat :: "datetime \<Rightarrow> string" where
  "isoformat d =
     zfill 4 (str_nat (year d)) @ ''-'' @ zfill 2 (str_nat (month d)) @ ''-''
       @ zfill 2 (str_nat (day d)) @ ''T'' @ zfill 2 (str_nat (hour d)) @ '':''
       @ zfill 2 (str_nat (minute d)) @ '':'' @ zfill 2 (str_nat (second d))
       @ (if microsecond d \<noteq> 0 then ''.'' @ zfill 6 (str_nat (microsecond d)) else [])
       @ ''+00:00''"

text \<open>
  \<^verbatim>\<open>urllib.parse.quote(s)\<close> with its default \<^verbatim>\<open>safe='/'\<close>: letters, digits and
  \<^verbatim>\<open>_.-~\<close> are kept, as is the slash; every other character becomes \<^verbatim>\<open>%XX\<close> for
  each byte of its UTF-8 encoding, in upper-case hexadecimal. (Interpreters before 3.7
  also escape the tilde, which no timestamp contains.)
\<close>

definition always_safe :: "char \<Rightarrow> bool" where
  "always_safe c =
     (c \<in> set ''ABCDEFGHIJKLMNOPQRSTUVWXYZabcdefghijklmnopqrstuvwxyz0123456789_.-~'')"

definition hex_digit :: "nat \<Rightarrow> char" where
  "hex_digit d = (if d < 10 then char_of (48 + d) else char_of (55 + d))"

definition percent :: "nat \<Rightarrow> string" where
  "percent b = [CHR ''%'', hex_digit (b div 16), hex_digit (b mod 16)]"

definition utf8 :: "char \<Rightarrow> nat list" where
  "utf8 c = (let n = of_char c in if n < 128 then [n] else [192 + n div 64, 128 + n mod 64])"

definition quote :: "string \<Rightarrow> string" where
  "quote s = concat (map (\<lambda>c. if always_safe c \<or> c = CHR ''/'' then [c]
                               else concat (map percent (utf8 c))) s)"

subsection \<open>Observable actions\<close>

text \<open>
  How \<^verbatim>\<open>self.connect()\<close> ends: the connection stands, \<^verbatim>\<open>OSError\<close> is raised (the
  case the worker handles), or another exception is raised.
\<close>

datatype conn_result = ConnOk | ConnOSError | ConnOtherError

record http_post =
  url :: string
  data :: string
  headers :: "(string \<times> string) list"

datatype level = Info | Warn | Error

text \<open>
  What the program does to the outside, in the order it does it:
  \<^verbatim>\<open>asyncio.sleep(n)\<close>, a call of \<^verbatim>\<open>self.connect()\<close> with how it ended, a line
  handed to the logger, \<^verbatim>\<open>asyncio.Task(self.dispatch_message(addr, func))\<close>,
  \<^verbatim>\<open>aiohttp.post\<close>, and \<^verbatim>\<open>response.release()\<close>.
\<close>

datatype action =
    Sleep nat
  | Connect conn_result
  | Log level string
  | Task string string
  | Post http_post
  | Release

subsection \<open>The dispatch coroutine\<close>

text \<open>
  How the HTTP exchange of one dispatch ends: \<^verbatim>\<open>aiohttp.post\<close> raises an exception
  (given by its \<^verbatim>\<open>str\<close>), or it returns a response with a status, whose
  \<^verbatim>\<open>release()\<close> then completes (\<open>None\<close>) or raises. Exceptions here are instances of
  \<^verbatim>\<open>Exception\<close>, which is what transport faults are.
\<close>

datatype http_result = PostRaised string | Responded nat "string option"

text \<open>
  The body of the \<^verbatim>\<open>try\<close> (lines 70-77): \<open>Inl e\<close> when an exception leaves it,
  \<open>Inr fail_msg\<close> when it runs to its end.
\<close>

definition try_post :: "http_result \<Rightarrow> string + string" where
  "try_post r =
     (case r of
        PostRaised e \<Rightarrow> Inl e
      | Responded status released \<Rightarrow>
          (let fail_msg = (if status \<noteq> 200 then ''HTTP status '' @ str_nat status else [])
           in case released of Some e \<Rightarrow> Inl e | None \<Rightarrow> Inr fail_msg))"

text \<open>The value of \<^verbatim>\<open>fail_msg\<close> at line 81, after the \<^verbatim>\<open>except\<close> clause.\<close>

definition fail_msg_of :: "http_result \<Rightarrow> string" where
  "fail_msg_of r = (case try_post r of Inl e \<Rightarrow> ''Caught exception: '' @ e | Inr m \<Rightarrow> m)"

text \<open>
  The \<^verbatim>\<open>try\<close> statement as a whole (lines 69-79), with exceptions as values:
  \<open>Inl e\<close> would be an exception that leaves it, and with it the coroutine, whose other
  lines format strings and call the logger; \<open>Inr fail_msg\<close> is its normal end, with the
  value \<^verbatim>\<open>fail_msg\<close> has then.
\<close>

definition try_except :: "http_result \<Rightarrow> string + string" where
  "try_except r =
     (case try_post r of Inl e \<Rightarrow> Inr (''Caught exception: '' @ e) | Inr fail_msg \<Rightarrow> Inr fail_msg)"

text \<open>
  \<^verbatim>\<open>dispatch_message\<close> (lines 60-84), given the wall clock and the way the HTTP
  exchange ends. It returns the client object as it leaves it, and its actions.
\<close>

definition dispatch_message ::
    "client \<Rightarrow> string \<Rightarrow> string \<Rightarrow> datetime \<Rightarrow> http_result \<Rightarrow> client \<times> action list" where
  "dispatch_message self addr func now r =
     (let dispatch_time = isoformat now;
          fail_msg = fail_msg_of r;
          post_data = ''dispatch_time='' @ quote dispatch_time @ '';func='' @ func;
          hdrs = [(''content-type'', ''application/x-www-form-urlencoded'')]
      in (self,
          [Post \<lparr>url = entry_point self @ addr, data = post_data, headers = hdrs\<rparr>]
          @ (case r of Responded status released \<Rightarrow> [Release] | PostRaised e \<Rightarrow> [])
          @ (if fail_msg \<noteq> []
             then [Log Info (''dispatch failed: '' @ fail_msg @ '' epoch time ''
                     @ dispatch_time @ '' address '' @ addr @ '' func '' @ func)]
             else [])))"

subsection \<open>The worker coroutine\<close>

text \<open>
  What \<^verbatim>\<open>self.reader.readline()\<close> gives: bytes that decode (UTF-8) to the given
  text, the empty text being the empty read of a closed stream; bytes that are not valid
  UTF-8, on which \<^verbatim>\<open>decode\<close> raises; or an exception of the stream itself (a
  connection reset).
\<close>

datatype read_result = Line string | Undecodable | ReadRaised

text \<open>
  The environment of one step of the worker: what \<^verbatim>\<open>time.time()\<close> returns, how
  \<^verbatim>\<open>self.connect()\<close> ends and what \<^verbatim>\<open>readline()\<close> gives, for whichever of them the
  step calls. No step reads the clock twice.
\<close>

record env =
  clock :: real
  conn :: conn_result
  rd :: read_result

text \<open>
  Where the worker is: at the head of the connection loop (line 89), at the head of the
  read loop (line 115), returned (after the \<^verbatim>\<open>break\<close> of line 97), or left by an
  exception that nothing catches.
\<close>

datatype loc = Connecting | Reading | Returned | Raised py_error

text \<open>
  \<^verbatim>\<open>worker\<close> (lines 86-131), one loop iteration at a time: from the head of the
  connection loop to the outcome of \<^verbatim>\<open>connect\<close>, or one \<^verbatim>\<open>readline\<close> and what
  follows it.
\<close>

fun worker_step :: "client \<times> loc \<Rightarrow> env \<Rightarrow> (client \<times> loc) \<times> action list" where
  "worker_step (self, Connecting) e =
     (let slept = (if reconnect_time self \<noteq> 0 then [Sleep 1] else [])
      in if reconnect_time self \<noteq> 0 \<and> clock e - reconnect_time self > 60
         then ((self, Returned), slept @ [Log Error ''Could not reconnect after 60s''])
         else (case conn e of
             ConnOSError \<Rightarrow>
               (if reconnect_time self = 0
                then ((self\<lparr>reconnect_time := clock e\<rparr>, Connecting),
                      slept @ [Connect ConnOSError,
                               Log Warn ''Could not connect to mochad. Retrying''])
                else ((self, Connecting), slept @ [Connect ConnOSError]))
           | ConnOtherError \<Rightarrow> ((self, Raised OtherError), slept @ [Connect ConnOtherError])
           | ConnOk \<Rightarrow>
               ((self\<lparr>reconnect_time := 0\<rparr>, Reading),
                slept @ [Connect ConnOk, Log Info ''Connected to mochad''])))"
| "worker_step (self, Reading) e =
     (case rd e of
        ReadRaised \<Rightarrow> ((self, Raised ConnectionError), [])
      | Undecodable \<Rightarrow> ((self, Raised UnicodeDecodeError), [])
      | Line l \<Rightarrow>
          (if l = [] then
             ((self\<lparr>reconnect_time := clock e\<rparr>, Connecting),
              [Log Warn ''Lost connection to mochad. Retrying.''])
           else (case parse_mochad_line (rstrip l) of
                   (addr, func) \<Rightarrow>
                     ((self, Reading),
                      if addr \<noteq> [] \<and> func \<noteq> [] then [Task addr func] else []))))"
| "worker_step (self, Returned) e = ((self, Returned), [])"
| "worker_step (self, Raised x) e = ((self, Raised x), [])"

text \<open>
  A run of the worker against a finite prefix of its environment: the state it reaches
  and everything it did. The worker itself may run forever; every finite stretch of a
  run is a \<open>run\<close> of this function.
\<close>

fun run :: "client \<times> loc \<Rightarrow> env list \<Rightarrow> (client \<times> loc) \<times> action list" where
  "run s [] = (s, [])"
| "run s (e # es) =
     (case worker_step s e of
        (s', acts) \<Rightarrow> (case run s' es of (s'', rest) \<Rightarrow> (s'', acts @ rest)))"

text \<open>
  A property of a sequence of actions: no call of \<^verbatim>\<open>connect\<close> follows a failed one
  without a sleep of at least one second in between. The flag says that a failed call
  is still waiting for its sleep.
\<close>

fun waits :: "bool \<Rightarrow> action list \<Rightarrow> bool" where
  "waits pending [] = True"
| "waits pending (Sleep n # as) = waits (pending \<and> n < 1) as"
| "waits pending (Connect r # as) = (\<not> pending \<and> waits (r \<noteq> ConnOk) as)"
| "waits pending (a # as) = waits pending as"

text \<open>The HTTP requests and the log lines among a sequence of actions.\<close>

fun posts :: "action list \<Rightarrow> http_post list" where
  "posts [] = []"
| "posts (Post p # as) = p # posts as"
| "posts (a # as) = posts as"

fun logs :: "action list \<Rightarrow> (level \<times> string) list" where
  "logs [] = []"
| "logs (Log lv m # as) = (lv, m) # logs as"
| "logs (a # as) = logs as"

text \<open>
  The reading directions of the two encodings, which say what the encodings mean:
  \<^verbatim>\<open>urllib.parse.unquote\<close> on the output of \<^verbatim>\<open>quote\<close> (upper-case hexadecimal,
  one byte per character), a string of decimal digits read as a number, and an ISO-8601
  timestamp with the offset \<^verbatim>\<open>+00:00\<close>,
  \<^verbatim>\<open>YYYY-MM-DDTHH:MM:SS[.ffffff]+00:00\<close>, read as the UTC clock it denotes. The last
  definition names the characters that may stand in a percent-encoded string.
\<close>

definition hex_val :: "char \<Rightarrow> nat" where
  "hex_val c = (let n = of_char c in if n \<le> 57 then n - 48 else n - 55)"

fun unquote :: "string \<Rightarrow> string" where
  "unquote [] = []"
| "unquote (c # s) =
     (if c = CHR ''%'' then
        (case s of a # b # t \<Rightarrow> char_of (16 * hex_val a + hex_val b) # unquote t
                 | _ \<Rightarrow> c # unquote s)
      else c # unquote s)"

definition is_digit :: "char \<Rightarrow> bool" where
  "is_digit c = (48 \<le> (of_char c :: nat) \<and> (of_char c :: nat) \<le> 57)"

definition digits_value :: "string \<Rightarrow> nat" where
  "digits_value s = foldl (\<lambda>a c. 10 * a + (of_char c - 48)) 0 s"

definition decimal :: "string \<Rightarrow> nat option" where
  "decimal s = (if s \<noteq> [] \<and> list_all is_digit s then Some (digits_value s) else None)"

definition fromisoformat :: "string \<Rightarrow> datetime option" where
  "fromisoformat s =
     (let rest = drop 19 s in
      if slice s 4 5 = ''-'' \<and> slice s 7 8 = ''-'' \<and> slice s 10 11 = ''T''
         \<and> slice s 13 14 = '':'' \<and> slice s 16 17 = '':''
         \<and> (rest = ''+00:00''
              \<or> (length rest = 13 \<and> slice rest 0 1 = ''.'' \<and> drop 7 rest = ''+00:00''))
      then
        (case decimal (slice s 0 4) of None \<Rightarrow> None | Some y \<Rightarrow>
         case decimal (slice s 5 7) of None \<Rightarrow> None | Some mo \<Rightarrow>
         case decimal (slice s 8 10) of None \<Rightarrow> None | Some d \<Rightarrow>
         case decimal (slice s 11 13) of None \<Rightarrow> None | Some h \<Rightarrow>
         case decimal (slice s 14 16) of None \<Rightarrow> None | Some mi \<Rightarrow>
         case decimal (slice s 17 19) of None \<Rightarrow> None | Some sec \<Rightarrow>
         case (if rest = ''+00:00'' then Some 0 else decimal (slice rest 1 7)) of
           None \<Rightarrow> None
         | Some us \<Rightarrow>
             Some \<lparr>year = y, month = mo, day = d, hour = h, minute = mi, second = sec,
                   microsecond = us\<rparr>)
      else None)"

definition url_char :: "char \<Rightarrow> bool" where
  "url_char x =
     (x \<in> set ''ABCDEFGHIJKLMNOPQRSTUVWXYZabcdefghijklmnopqrstuvwxyz0123456789_.-~/%'')"

text \<open>
  A client as \<^verbatim>\<open>daemon_main\<close> builds it for the default server and the entry point
  \<^verbatim>\<open>http://example.com/api\<close>, and a reading of the wall clock.
\<close>

definition example_client :: client where
  "example_client =
     \<lparr>host = ''127.0.0.1'', entry_point = ''http://example.com/api/'', reconnect_time = 0\<rparr>"

definition example_now :: datetime where
  "example_now =
     \<lparr>year = 2015, month = 9, day = 22, hour = 15, minute = 39, second = 7, microsecond = 123\<rparr>"

text \<open>
  The flag of \<open>waits\<close> after a sequence of actions, and the states in which a failed
  call may still wait for its sleep: never in the read loop, and at the head of the
  connection loop only with the reconnect clock set.
\<close>

fun pending_after :: "bool \<Rightarrow> action list \<Rightarrow> bool" where
  "pending_after pending [] = pending"
| "pending_after pending (Sleep n # as) = pending_after (pending \<and> n < 1) as"
| "pending_after pending (Connect r # as) = pending_after (r \<noteq> ConnOk) as"
| "pending_after pending (a # as) = pending_after pending as"

definition wait_inv :: "bool \<Rightarrow> client \<times> loc \<Rightarrow> bool" where
  "wait_inv pending s = (case s of (self, l) \<Rightarrow>
     \<not> pending \<or> (l \<noteq> Reading \<and> (l \<noteq> Connecting \<or> reconnect_time self \<noteq> 0)))"

text \<open>
  Lines as \<^verbatim>\<open>readline\<close> returns them, with their line ends: two RFSEC messages and
  one message of another class.
\<close>

definition line_contact :: string where
  "line_contact =
     ''09/22 15:39:07 Rx RFSEC Addr: 21:26:80 Func: Contact_alert_min_DS10A'' @ [CHR 0x0D, CHR 0x0A]"

definition line_other :: string where
  "line_other = ''09/22 15:39:07 Tx PL HouseUnit: A1'' @ [CHR 0x0A]"

definition line_motion :: string where
  "line_motion = ''09/22 15:40:11 Rx RFSEC Addr: 5C:E1:00 Func: Motion_alert_MS10A'' @ [CHR 0x0A]"

section \<open>The line parser\<close>

lemma slice_nth: "j \<le> length s \<Longrightarrow> slice s i j = map ((!) s) [i..<j]"
  by (rule nth_equalityI) (auto simp: slice_def)

lemma drop_nth: "drop i s = map ((!) s) [i..<length s]"
  by (rule nth_equalityI) auto

lemma parse_after_timestamp:
  "length ts = 15 \<Longrightarrow>
   parse_mochad_line (ts @ rest) =
     (if take 8 rest \<noteq> ''Rx RFSEC'' then ([], []) else (take 8 (drop 15 rest), drop 30 rest))"
  by (simp add: parse_mochad_line_def slice_def)

lemma read_step_line:
  "rd e = Line raw \<Longrightarrow> raw \<noteq> [] \<Longrightarrow>
   worker_step (self, Reading) e =
     ((self, Reading),
      case event_of (parse_mochad_line (rstrip raw)) of
        None \<Rightarrow> [] | Some (addr, func) \<Rightarrow> [Task addr func])"
  by (simp add: event_of_def split: prod.splits)

lemma read_step_none:
  assumes a: "rd e = Line raw" and b: "raw \<noteq> []"
    and c: "event_of (parse_mochad_line (rstrip raw)) = None"
  shows "worker_step (self, Reading) e = ((self, Reading), [])"
  unfolding read_step_line [OF a b] c by simp

lemma no_event_no_task:
  assumes ev: "event_of (parse_mochad_line line) = None"
  shows "\<forall>self e raw. rd e = Line raw \<and> raw \<noteq> [] \<and> rstrip raw = line
           \<longrightarrow> worker_step (self, Reading) e = ((self, Reading), [])"
proof (intro allI impI)
  fix self :: client and e :: env and raw :: string
  assume h: "rd e = Line raw \<and> raw \<noteq> [] \<and> rstrip raw = line"
  with ev have "event_of (parse_mochad_line (rstrip raw)) = None" by simp
  with h show "worker_step (self, Reading) e = ((self, Reading), [])"
    by (blast intro: read_step_none)
qed

lemma rstrip_examples:
  "rstrip line_contact = ''09/22 15:39:07 Rx RFSEC Addr: 21:26:80 Func: Contact_alert_min_DS10A''"
  "rstrip line_other = ''09/22 15:39:07 Tx PL HouseUnit: A1''"
  "rstrip line_motion = ''09/22 15:40:11 Rx RFSEC Addr: 5C:E1:00 Func: Motion_alert_MS10A''"
  by (simp_all add: rstrip_def isspace_def line_contact_def line_other_def line_motion_def)

lemma example_lines_nonempty: "line_contact \<noteq> []" "line_other \<noteq> []" "line_motion \<noteq> []"
  by (simp_all add: line_contact_def line_other_def line_motion_def)

text \<open>
  C5. A line that carries the tag \<^verbatim>\<open>Rx RFSEC\<close> at offsets 15..22 and is long enough to
  hold all fields (at least one character of the function, at offset 45) parses to the
  address at offsets 30..37 and the function from offset 45 to the end of the line; both
  are non-blank, so the line stands for an event. The first 15 characters, the
  timestamp, have no influence on the result.
\<close>

theorem parse_well_formed_line:
  assumes tag: "slice line 15 23 = ''Rx RFSEC''" and len: "45 < length line"
  shows "parse_mochad_line line = (slice line 30 38, drop 45 line)
       \<and> slice line 30 38 = map ((!) line) [30..<38]
       \<and> drop 45 line = map ((!) line) [45..<length line]
       \<and> event_of (parse_mochad_line line) = Some (slice line 30 38, drop 45 line)
       \<and> (\<forall>ts ts' rest. line = ts @ rest \<and> length ts = 15 \<and> length ts' = 15
            \<longrightarrow> parse_mochad_line (ts' @ rest) = parse_mochad_line line)"
proof -
  have p: "parse_mochad_line line = (slice line 30 38, drop 45 line)"
    using tag by (simp add: parse_mochad_line_def)
  have a: "slice line 30 38 = map ((!) line) [30..<38]"
    using len by (simp add: slice_nth)
  have f: "drop 45 line = map ((!) line) [45..<length line]"
    by (rule drop_nth)
  have "slice line 30 38 \<noteq> []" and "drop 45 line \<noteq> []"
    using len by (simp_all add: slice_def)
  then have ev: "event_of (parse_mochad_line line) = Some (slice line 30 38, drop 45 line)"
    by (simp add: p event_of_def)
  have ts: "\<forall>ts ts' rest. line = ts @ rest \<and> length ts = 15 \<and> length ts' = 15
            \<longrightarrow> parse_mochad_line (ts' @ rest) = parse_mochad_line line"
    by (simp add: parse_after_timestamp)
  from p a f ev ts show ?thesis by blast
qed

text \<open>
  The line of the source's own comment (line 35) parses to address \<^verbatim>\<open>21:26:80\<close> and
  function \<^verbatim>\<open>Contact_alert_min_DS10A\<close>, and so does the same line under another
  timestamp.
\<close>

theorem parse_well_formed_line_witness:
  "slice ''09/22 15:39:07 Rx RFSEC Addr: 21:26:80 Func: Contact_alert_min_DS10A'' 15 23 = ''Rx RFSEC''
   \<and> 45 < length ''09/22 15:39:07 Rx RFSEC Addr: 21:26:80 Func: Contact_alert_min_DS10A''
   \<and> parse_mochad_line ''09/22 15:39:07 Rx RFSEC Addr: 21:26:80 Func: Contact_alert_min_DS10A''
       = (''21:26:80'', ''Contact_alert_min_DS10A'')
   \<and> event_of (parse_mochad_line ''09/22 15:39:07 Rx RFSEC Addr: 21:26:80 Func: Contact_alert_min_DS10A'')
       = Some (''21:26:80'', ''Contact_alert_min_DS10A'')
   \<and> parse_mochad_line ''31/12 23:59:59 Rx RFSEC Addr: 21:26:80 Func: Contact_alert_min_DS10A''
       = (''21:26:80'', ''Contact_alert_min_DS10A'')"
proof -
  let ?l = "''09/22 15:39:07 Rx RFSEC Addr: 21:26:80 Func: Contact_alert_min_DS10A''"
  have tag: "slice ?l 15 23 = ''Rx RFSEC''" by (simp add: slice_def)
  have len: "45 < length ?l" by simp
  note w = parse_well_formed_line [OF tag len]
  have sl: "slice ?l 30 38 = ''21:26:80''" "drop 45 ?l = ''Contact_alert_min_DS10A''"
    by (simp_all add: slice_def)
  from w have "parse_mochad_line ?l = (slice ?l 30 38, drop 45 ?l)" by blast
  then have p: "parse_mochad_line ?l = (''21:26:80'', ''Contact_alert_min_DS10A'')"
    by (simp only: sl)
  from w have "event_of (parse_mochad_line ?l) = Some (slice ?l 30 38, drop 45 ?l)" by blast
  then have ev: "event_of (parse_mochad_line ?l) = Some (''21:26:80'', ''Contact_alert_min_DS10A'')"
    by (simp only: sl)
  from w have "\<forall>ts ts' rest. ?l = ts @ rest \<and> length ts = 15 \<and> length ts' = 15
            \<longrightarrow> parse_mochad_line (ts' @ rest) = parse_mochad_line ?l" by blast
  then have "?l = ''09/22 15:39:07 '' @ ''Rx RFSEC Addr: 21:26:80 Func: Contact_alert_min_DS10A''
        \<and> length ''09/22 15:39:07 '' = 15 \<and> length ''31/12 23:59:59 '' = 15
      \<longrightarrow> parse_mochad_line (''31/12 23:59:59 '' @ ''Rx RFSEC Addr: 21:26:80 Func: Contact_alert_min_DS10A'')
          = parse_mochad_line ?l" by blast
  then have t: "parse_mochad_line ''31/12 23:59:59 Rx RFSEC Addr: 21:26:80 Func: Contact_alert_min_DS10A''
       = (''21:26:80'', ''Contact_alert_min_DS10A'')"
    by (simp add: p)
  from tag len p ev t show ?thesis by blast
qed

text \<open>
  C6. A line whose characters at offsets 15..22 are not the tag \<^verbatim>\<open>Rx RFSEC\<close> parses to
  the blank pair, which is no event, and the read loop that reads it spawns no dispatch:
  its step does nothing at all.
\<close>

theorem parse_tag_mismatch:
  assumes "slice line 15 23 \<noteq> ''Rx RFSEC''"
  shows "parse_mochad_line line = ([], [])
       \<and> event_of (parse_mochad_line line) = None
       \<and> (\<forall>self e raw. rd e = Line raw \<and> raw \<noteq> [] \<and> rstrip raw = line
             \<longrightarrow> worker_step (self, Reading) e = ((self, Reading), []))"
proof -
  have p: "parse_mochad_line line = ([], [])"
    using assms by (simp add: parse_mochad_line_def)
  then have ev: "event_of (parse_mochad_line line) = None"
    by (simp add: event_of_def)
  then have "\<forall>self e raw. rd e = Line raw \<and> raw \<noteq> [] \<and> rstrip raw = line
             \<longrightarrow> worker_step (self, Reading) e = ((self, Reading), [])"
    by (rule no_event_no_task)
  with p ev show ?thesis by blast
qed

text \<open>
  A line of another message class, as read from the stream with its newline.
\<close>

theorem parse_tag_mismatch_witness:
  "slice (rstrip line_other) 15 23 \<noteq> ''Rx RFSEC''
   \<and> parse_mochad_line (rstrip line_other) = ([], [])
   \<and> event_of (parse_mochad_line (rstrip line_other)) = None
   \<and> worker_step (example_client, Reading)
        \<lparr>clock = 1442936347, conn = ConnOk, rd = Line line_other\<rparr>
       = ((example_client, Reading), [])"
proof -
  let ?e = "\<lparr>clock = 1442936347, conn = ConnOk, rd = Line line_other\<rparr>"
  have tag: "slice (rstrip line_other) 15 23 \<noteq> ''Rx RFSEC''"
    by (simp add: rstrip_examples slice_def)
  note w = parse_tag_mismatch [OF tag]
  from w have p: "parse_mochad_line (rstrip line_other) = ([], [])" by blast
  from w have ev: "event_of (parse_mochad_line (rstrip line_other)) = None" by blast
  from w have "rd ?e = Line line_other \<and> line_other \<noteq> [] \<and> rstrip line_other = rstrip line_other
        \<longrightarrow> worker_step (example_client, Reading) ?e = ((example_client, Reading), [])"
    by blast
  then have st: "worker_step (example_client, Reading) ?e = ((example_client, Reading), [])"
    using example_lines_nonempty by (simp del: worker_step.simps)
  from tag p ev st show ?thesis by (intro conjI)
qed

text \<open>
  C7. The parser has an answer for every string: slicing cannot fail, so there is no
  error case. A line too short to hold the tag (fewer than 23 characters) parses to the
  blank pair. A line too short to hold any character of the function (at most 45
  characters) parses to a blank function whatever its tag, so it is no event and the
  read loop spawns nothing for it, as for a line that does not match.
\<close>

theorem parse_total_short_line:
  "(\<exists>addr func. parse_mochad_line line = (addr, func))
   \<and> (length line < 23 \<longrightarrow> parse_mochad_line line = ([], []))
   \<and> (length line \<le> 45 \<longrightarrow>
        snd (parse_mochad_line line) = []
        \<and> event_of (parse_mochad_line line) = None
        \<and> (\<forall>self e raw. rd e = Line raw \<and> raw \<noteq> [] \<and> rstrip raw = line
              \<longrightarrow> worker_step (self, Reading) e = ((self, Reading), [])))"
proof -
  have tot: "\<exists>addr func. parse_mochad_line line = (addr, func)"
    by (cases "parse_mochad_line line") simp
  have short: "length line < 23 \<longrightarrow> parse_mochad_line line = ([], [])"
  proof
    assume "length line < 23"
    then have "length (slice line 15 23) < 8" by (simp add: slice_def)
    then have "slice line 15 23 \<noteq> ''Rx RFSEC''" by auto
    then show "parse_mochad_line line = ([], [])" by (simp add: parse_mochad_line_def)
  qed
  have nofunc: "length line \<le> 45 \<longrightarrow>
        snd (parse_mochad_line line) = []
        \<and> event_of (parse_mochad_line line) = None
        \<and> (\<forall>self e raw. rd e = Line raw \<and> raw \<noteq> [] \<and> rstrip raw = line
              \<longrightarrow> worker_step (self, Reading) e = ((self, Reading), []))"
  proof
    assume len: "length line \<le> 45"
    then have s: "snd (parse_mochad_line line) = []"
      by (simp add: parse_mochad_line_def)
    then have ev: "event_of (parse_mochad_line line) = None"
      by (cases "parse_mochad_line line") (simp add: event_of_def)
    then have "\<forall>self e raw. rd e = Line raw \<and> raw \<noteq> [] \<and> rstrip raw = line
              \<longrightarrow> worker_step (self, Reading) e = ((self, Reading), [])"
      by (rule no_event_no_task)
    with s ev show "snd (parse_mochad_line line) = []
        \<and> event_of (parse_mochad_line line) = None
        \<and> (\<forall>self e raw. rd e = Line raw \<and> raw \<noteq> [] \<and> rstrip raw = line
              \<longrightarrow> worker_step (self, Reading) e = ((self, Reading), []))" by blast
  qed
  from tot short nofunc show ?thesis by blast
qed

text \<open>
  A tagged line cut in the middle of its address keeps the part of the address it has,
  with a blank function; lines shorter than the tag field parse to the blank pair.
\<close>

theorem parse_total_short_line_witness:
  "length ''09/22 15:39:07 Rx RFSEC Addr: 21:2'' \<le> 45
   \<and> parse_mochad_line ''09/22 15:39:07 Rx RFSEC Addr: 21:2'' = (''21:2'', [])
   \<and> event_of (parse_mochad_line ''09/22 15:39:07 Rx RFSEC Addr: 21:2'') = None
   \<and> length ''09/22 15:39:07 Rx'' < 23
   \<and> parse_mochad_line ''09/22 15:39:07 Rx'' = ([], [])
   \<and> parse_mochad_line [] = ([], [])"
proof -
  let ?l = "''09/22 15:39:07 Rx RFSEC Addr: 21:2''"
  have len: "length ?l \<le> 45" by simp
  have a: "fst (parse_mochad_line ?l) = ''21:2''"
    by (simp add: parse_mochad_line_def slice_def)
  from parse_total_short_line [of ?l] len
  have s: "snd (parse_mochad_line ?l) = []" and ev: "event_of (parse_mochad_line ?l) = None"
    by blast+
  from a s have p: "parse_mochad_line ?l = (''21:2'', [])"
    by (cases "parse_mochad_line ?l") simp
  have len2: "length ''09/22 15:39:07 Rx'' < 23" by simp
  with parse_total_short_line [of "''09/22 15:39:07 Rx''"]
  have p2: "parse_mochad_line ''09/22 15:39:07 Rx'' = ([], [])" by blast
  have "length ([]::string) < 23" by simp
  with parse_total_short_line [of "[]"]
  have p3: "parse_mochad_line [] = ([], [])" by blast
  from len p ev len2 p2 p3 show ?thesis by blast
qed

section \<open>The request and the log of a dispatch\<close>

lemma posts_dispatch:
  "posts (snd (dispatch_message self addr func now r)) =
     [\<lparr>url = entry_point self @ addr,
       data = ''dispatch_time='' @ quote (isoformat now) @ '';func='' @ func,
       headers = [(''content-type'', ''application/x-www-form-urlencoded'')]\<rparr>]"
  by (cases r) (simp_all add: dispatch_message_def Let_def)

lemma logs_dispatch:
  "logs (snd (dispatch_message self addr func now r)) =
     (if fail_msg_of r \<noteq> []
      then [(Info, ''dispatch failed: '' @ fail_msg_of r @ '' epoch time '' @ isoformat now
                     @ '' address '' @ addr @ '' func '' @ func)]
      else [])"
  by (cases r) (simp_all add: dispatch_message_def Let_def)

lemma fail_msg_of_cases:
  "fail_msg_of (PostRaised e) = ''Caught exception: '' @ e"
  "fail_msg_of (Responded status (Some e)) = ''Caught exception: '' @ e"
  "fail_msg_of (Responded status None) = (if status \<noteq> 200 then ''HTTP status '' @ str_nat status else [])"
  by (simp_all add: fail_msg_of_def try_post_def)

lemma fail_msg_of_empty: "fail_msg_of r = [] \<longleftrightarrow> r = Responded 200 None"
proof (cases r)
  case (PostRaised e)
  then show ?thesis by (simp add: fail_msg_of_cases)
next
  case (Responded status released)
  then show ?thesis by (cases released) (simp_all add: fail_msg_of_cases)
qed

lemma isoformat_example: "isoformat example_now = ''2015-09-22T15:39:07.000123+00:00''"
  by code_simp

lemma quote_example: "quote ''2015-09-22T15:39:07.000123+00:00'' = ''2015-09-22T15%3A39%3A07.000123%2B00%3A00''"
  by code_simp

subsection \<open>The two encodings of the dispatch time\<close>

lemma of_char_char_of_small: "n < 256 \<Longrightarrow> (of_char (char_of (n::nat)) :: nat) = n"
  by simp

lemma hex_val_hex_digit: "d < 16 \<Longrightarrow> hex_val (hex_digit d) = d"
  by (simp add: hex_val_def hex_digit_def Let_def of_char_char_of_small del: of_char_of)

lemma of_char_digit: "d < 10 \<Longrightarrow> (of_char (digit d) :: nat) = 48 + d"
  by (simp add: digit_def of_char_char_of_small del: of_char_of)

lemma is_digit_digit: "d < 10 \<Longrightarrow> is_digit (digit d)"
  by (simp add: is_digit_def of_char_digit)

lemma digits_value_snoc: "digits_value (s @ [c]) = 10 * digits_value s + (of_char c - 48)"
  by (simp add: digits_value_def)

lemma str_nat_digits: "str_nat n \<noteq> [] \<and> list_all is_digit (str_nat n)"
proof (induction n rule: str_nat.induct)
  case (1 n)
  show ?case
  proof (cases "n < 10")
    case True
    then show ?thesis by (subst (1 2) str_nat.simps) (simp add: is_digit_digit)
  next
    case False
    with 1 have "list_all is_digit (str_nat (n div 10))" by simp
    moreover have "is_digit (digit (n mod 10))" by (simp add: is_digit_digit)
    ultimately show ?thesis using False by (subst (1 2) str_nat.simps) simp
  qed
qed

lemma digits_value_str_nat: "digits_value (str_nat n) = n"
proof (induction n rule: str_nat.induct)
  case (1 n)
  show ?case
  proof (cases "n < 10")
    case True
    then show ?thesis
      by (subst str_nat.simps) (simp add: digits_value_def of_char_digit)
  next
    case False
    with 1 have "digits_value (str_nat (n div 10)) = n div 10" by simp
    then show ?thesis using False
      by (subst str_nat.simps) (simp add: digits_value_snoc of_char_digit)
  qed
qed

lemma length_str_nat: "0 < k \<Longrightarrow> n < 10 ^ k \<Longrightarrow> length (str_nat n) \<le> k"
proof (induction k arbitrary: n)
  case 0
  then show ?case by simp
next
  case (Suc k)
  show ?case
  proof (cases "n < 10")
    case True
    then show ?thesis by (subst str_nat.simps) simp
  next
    case False
    with Suc.prems have k: "0 < k" by (cases k) simp_all
    from Suc.prems have "n div 10 < 10 ^ k" by (simp add: less_mult_imp_div_less mult.commute)
    from Suc.IH [OF k this] False show ?thesis by (subst str_nat.simps) simp
  qed
qed

lemma zfill_field:
  assumes "0 < w" and "n < 10 ^ w"
  shows "length (zfill w (str_nat n)) = w" and "decimal (zfill w (str_nat n)) = Some n"
proof -
  have len: "length (str_nat n) \<le> w" using assms by (rule length_str_nat)
  then show "length (zfill w (str_nat n)) = w" by (simp add: zfill_def)
  have z: "is_digit CHR ''0''" by (simp add: is_digit_def)
  have v: "digits_value (replicate k CHR ''0'' @ s) = digits_value s" for k s
    by (induction k) (simp_all add: digits_value_def)
  from str_nat_digits [of n] z
  have "zfill w (str_nat n) \<noteq> []" and "list_all is_digit (zfill w (str_nat n))"
    by (auto simp: zfill_def list_all_iff)
  then show "decimal (zfill w (str_nat n)) = Some n"
    by (simp add: decimal_def) (simp add: zfill_def v digits_value_str_nat)
qed

lemma fromisoformat_fields:
  assumes l: "length Y = 4" "length Mo = 2" "length D = 2" "length H = 2" "length Mi = 2"
      "length S = 2"
    and d: "decimal Y = Some y" "decimal Mo = Some mo" "decimal D = Some dd" "decimal H = Some h"
      "decimal Mi = Some mi" "decimal S = Some sec"
    and f: "rest = ''+00:00'' \<and> us = 0
            \<or> (rest \<noteq> ''+00:00'' \<and> length rest = 13 \<and> slice rest 0 1 = ''.''
                \<and> drop 7 rest = ''+00:00'' \<and> decimal (slice rest 1 7) = Some us)"
  shows "fromisoformat (Y @ ''-'' @ Mo @ ''-'' @ D @ ''T'' @ H @ '':'' @ Mi @ '':'' @ S @ rest)
         = Some \<lparr>year = y, month = mo, day = dd, hour = h, minute = mi, second = sec, microsecond = us\<rparr>"
proof -
  let ?s = "Y @ ''-'' @ Mo @ ''-'' @ D @ ''T'' @ H @ '':'' @ Mi @ '':'' @ S @ rest"
  have s: "slice ?s 0 4 = Y" "slice ?s 4 5 = ''-''" "slice ?s 5 7 = Mo" "slice ?s 7 8 = ''-''"
    "slice ?s 8 10 = D" "slice ?s 10 11 = ''T''" "slice ?s 11 13 = H" "slice ?s 13 14 = '':''"
    "slice ?s 14 16 = Mi" "slice ?s 16 17 = '':''" "slice ?s 17 19 = S"
    "drop 19 ?s = rest"
    using l by (simp_all add: slice_def)
  from f show ?thesis
  proof
    assume "rest = ''+00:00'' \<and> us = 0"
    then show ?thesis
      unfolding fromisoformat_def Let_def s by (simp add: d)
  next
    assume r: "rest \<noteq> ''+00:00'' \<and> length rest = 13 \<and> slice rest 0 1 = ''.''
                \<and> drop 7 rest = ''+00:00'' \<and> decimal (slice rest 1 7) = Some us"
    then show ?thesis
      unfolding fromisoformat_def Let_def s by (simp add: d)
  qed
qed

lemma fromisoformat_isoformat:
  assumes "year now \<le> 9999" "month now \<le> 12" "day now \<le> 31" "hour now \<le> 23" "minute now \<le> 59"
    "second now \<le> 59" "microsecond now \<le> 999999"
  shows "fromisoformat (isoformat now) = Some now"
proof -
  have y: "year now < 10 ^ 4" and mo: "month now < 10 ^ 2" and dd: "day now < 10 ^ 2"
    and h: "hour now < 10 ^ 2" and mi: "minute now < 10 ^ 2" and sec: "second now < 10 ^ 2"
    and us: "microsecond now < 10 ^ 6"
    using assms by simp_all
  have p: "(0::nat) < 4" "(0::nat) < 2" "(0::nat) < 6" by simp_all
  let ?rest = "(if microsecond now \<noteq> 0 then ''.'' @ zfill 6 (str_nat (microsecond now)) else [])
                 @ ''+00:00''"
  have f: "?rest = ''+00:00'' \<and> microsecond now = 0
           \<or> (?rest \<noteq> ''+00:00'' \<and> length ?rest = 13 \<and> slice ?rest 0 1 = ''.''
                \<and> drop 7 ?rest = ''+00:00'' \<and> decimal (slice ?rest 1 7) = Some (microsecond now))"
    using zfill_field [OF p(3) us] by (cases "microsecond now = 0") (simp_all add: slice_def)
  have "fromisoformat (isoformat now) =
        Some \<lparr>year = year now, month = month now, day = day now, hour = hour now,
              minute = minute now, second = second now, microsecond = microsecond now\<rparr>"
    unfolding isoformat_def
    by (rule fromisoformat_fields
          [OF zfill_field(1) [OF p(1) y] zfill_field(1) [OF p(2) mo] zfill_field(1) [OF p(2) dd]
              zfill_field(1) [OF p(2) h] zfill_field(1) [OF p(2) mi] zfill_field(1) [OF p(2) sec]
              zfill_field(2) [OF p(1) y] zfill_field(2) [OF p(2) mo] zfill_field(2) [OF p(2) dd]
              zfill_field(2) [OF p(2) h] zfill_field(2) [OF p(2) mi] zfill_field(2) [OF p(2) sec]
              f])
  then show ?thesis by simp
qed

lemma hex_digit_values: "map hex_digit [0..<16] = ''0123456789ABCDEF''"
  by code_simp

lemma hex_digit_in: "d < 16 \<Longrightarrow> hex_digit d \<in> set ''0123456789ABCDEF''"
proof -
  assume d: "d < 16"
  then have "hex_digit d = map hex_digit [0..<16] ! d" by simp
  then have e: "hex_digit d = ''0123456789ABCDEF'' ! d" by (simp only: hex_digit_values)
  have "''0123456789ABCDEF'' ! d \<in> set ''0123456789ABCDEF''"
    by (rule nth_mem) (use d in simp)
  then show ?thesis by (simp only: e)
qed

lemma charset_facts:
  "set ''0123456789ABCDEF''
     \<subseteq> set ''ABCDEFGHIJKLMNOPQRSTUVWXYZabcdefghijklmnopqrstuvwxyz0123456789_.-~/%''"
  "set ''ABCDEFGHIJKLMNOPQRSTUVWXYZabcdefghijklmnopqrstuvwxyz0123456789_.-~''
     \<subseteq> set ''ABCDEFGHIJKLMNOPQRSTUVWXYZabcdefghijklmnopqrstuvwxyz0123456789_.-~/%''"
  "CHR ''%'' \<in> set ''ABCDEFGHIJKLMNOPQRSTUVWXYZabcdefghijklmnopqrstuvwxyz0123456789_.-~/%''"
  "CHR ''/'' \<in> set ''ABCDEFGHIJKLMNOPQRSTUVWXYZabcdefghijklmnopqrstuvwxyz0123456789_.-~/%''"
  by code_simp+

lemma url_char_hex: "d < 16 \<Longrightarrow> url_char (hex_digit d)"
  unfolding url_char_def by (rule subsetD [OF charset_facts(1)]) (rule hex_digit_in)

lemma url_char_safe: "always_safe c \<Longrightarrow> url_char c"
  unfolding url_char_def always_safe_def by (rule subsetD [OF charset_facts(2)])

lemma url_char_marks: "url_char CHR ''%''" "url_char CHR ''/''"
  unfolding url_char_def by (rule charset_facts)+

lemma percent_chars: "b < 256 \<Longrightarrow> list_all url_char (percent b)"
  by (simp add: percent_def url_char_hex url_char_marks)

lemma utf8_bytes: "list_all (\<lambda>b. b < 256) (utf8 c)"
proof -
  have n: "(of_char c :: nat) < 256" by simp
  then have "(of_char c :: nat) div 64 < 4" by arith
  moreover have "(of_char c :: nat) mod 64 < 64" by simp
  ultimately show ?thesis using n by (auto simp: utf8_def Let_def)
qed

lemma list_all_concat_map:
  "list_all P xs \<Longrightarrow> (\<And>x. P x \<Longrightarrow> list_all Q (f x)) \<Longrightarrow> list_all Q (concat (map f xs))"
  by (induction xs) simp_all

lemma quote_chars: "list_all url_char (quote s)"
proof -
  have one: "list_all url_char
      (if always_safe c \<or> c = CHR ''/'' then [c] else concat (map percent (utf8 c)))" for c
  proof (cases "always_safe c \<or> c = CHR ''/''")
    case True
    then show ?thesis by (auto simp: url_char_safe url_char_marks)
  next
    case False
    have "list_all url_char (concat (map percent (utf8 c)))"
      by (rule list_all_concat_map [OF utf8_bytes]) (rule percent_chars)
    with False show ?thesis by simp
  qed
  have "list_all (\<lambda>c. True) s" by (simp add: list_all_iff)
  then show ?thesis unfolding quote_def
    by (rule list_all_concat_map) (rule one)
qed

lemma unquote_quote:
  "list_all (\<lambda>c. (of_char c :: nat) < 128) s \<Longrightarrow> unquote (quote s) = s"
proof (induction s)
  case Nil
  then show ?case by (simp add: quote_def)
next
  case (Cons c s)
  then have ih: "unquote (quote s) = s" and a: "(of_char c :: nat) < 128" by simp_all
  have q: "quote (c # s) =
      (if always_safe c \<or> c = CHR ''/'' then [c] else concat (map percent (utf8 c))) @ quote s"
    by (simp add: quote_def)
  show ?case
  proof (cases "always_safe c \<or> c = CHR ''/''")
    case True
    then have "c \<noteq> CHR ''%''" by (auto simp: always_safe_def)
    with True ih show ?thesis by (simp add: q)
  next
    case False
    let ?n = "of_char c :: nat"
    have h: "hex_val (hex_digit (?n div 16)) = ?n div 16" "hex_val (hex_digit (?n mod 16)) = ?n mod 16"
      using a by (simp_all add: hex_val_hex_digit)
    have "char_of (16 * (?n div 16) + ?n mod 16) = c" by simp
    with False a ih h show ?thesis
      by (simp add: q utf8_def percent_def)
  qed
qed

lemma isoformat_ascii: "list_all (\<lambda>c. (of_char c :: nat) < 128) (isoformat now)"
proof -
  have d: "list_all (\<lambda>c. (of_char c :: nat) < 128) (zfill w (str_nat n))" for w n
    using str_nat_digits [of n] by (auto simp: zfill_def list_all_iff is_digit_def)
  show ?thesis by (simp add: isoformat_def d)
qed

lemma try_except_fail_msg: "try_except r = Inr (fail_msg_of r)"
  by (simp add: try_except_def fail_msg_of_def split: sum.splits)

lemma example_now_fields:
  "1 \<le> year example_now \<and> year example_now \<le> 9999 \<and> 1 \<le> month example_now
   \<and> month example_now \<le> 12 \<and> 1 \<le> day example_now \<and> day example_now \<le> 31
   \<and> hour example_now \<le> 23 \<and> minute example_now \<le> 59 \<and> second example_now \<le> 59
   \<and> microsecond example_now \<le> 999999"
  by (simp add: example_now_def)

section \<open>The constructor\<close>

text \<open>
  C10. The constructor fails with IndexError on the empty entry point (it reads the last
  character). On every other entry point it stores the entry point itself when that
  ends with a slash and the entry point followed by a slash when it does not, so the
  stored entry point ends with a slash, and the URL of every dispatch is the base, a
  slash and the device address.
\<close>

theorem init_entry_point_slash:
  "MochadClient_init h [] = Inl IndexError
   \<and> (ep \<noteq> [] \<longrightarrow>
        (\<exists>self. MochadClient_init h ep = Inr self
           \<and> entry_point self = (if last ep = CHR ''/'' then ep else ep @ ''/'')
           \<and> last (entry_point self) = CHR ''/''
           \<and> host self = h \<and> reconnect_time self = 0
           \<and> (\<forall>addr func now r.
                 map url (posts (snd (dispatch_message self addr func now r)))
                   = [butlast (entry_point self) @ ''/'' @ addr])))"
proof -
  have a: "MochadClient_init h [] = Inl IndexError"
    by (simp add: MochadClient_init_def)
  have b: "ep \<noteq> [] \<longrightarrow>
        (\<exists>self. MochadClient_init h ep = Inr self
           \<and> entry_point self = (if last ep = CHR ''/'' then ep else ep @ ''/'')
           \<and> last (entry_point self) = CHR ''/''
           \<and> host self = h \<and> reconnect_time self = 0
           \<and> (\<forall>addr func now r.
                 map url (posts (snd (dispatch_message self addr func now r)))
                   = [butlast (entry_point self) @ ''/'' @ addr]))"
  proof
    assume ne: "ep \<noteq> []"
    define self where "self = \<lparr>host = h, entry_point = (if last ep = CHR ''/'' then ep else ep @ ''/''), reconnect_time = 0\<rparr>"
    have i: "MochadClient_init h ep = Inr self"
      using ne by (simp add: MochadClient_init_def self_def)
    have e: "entry_point self = (if last ep = CHR ''/'' then ep else ep @ ''/'')"
      by (simp add: self_def)
    have l: "last (entry_point self) = CHR ''/''"
      by (simp add: e)
    have n: "entry_point self \<noteq> []"
      using ne by (simp add: e)
    have s: "entry_point self = butlast (entry_point self) @ ''/''"
      using n l by (metis append_butlast_last_id)
    have u: "\<forall>addr func now r.
                 map url (posts (snd (dispatch_message self addr func now r)))
                   = [butlast (entry_point self) @ ''/'' @ addr]"
    proof (intro allI)
      fix addr func now r
      have "map url (posts (snd (dispatch_message self addr func now r))) = [entry_point self @ addr]"
        by (simp add: posts_dispatch)
      also have "entry_point self @ addr = butlast (entry_point self) @ ''/'' @ addr"
        using s by (metis append_assoc)
      finally show "map url (posts (snd (dispatch_message self addr func now r)))
                   = [butlast (entry_point self) @ ''/'' @ addr]" .
    qed
    have h: "host self = h" and rt: "reconnect_time self = 0" by (simp_all add: self_def)
    from i e l h rt u show "\<exists>self. MochadClient_init h ep = Inr self
           \<and> entry_point self = (if last ep = CHR ''/'' then ep else ep @ ''/'')
           \<and> last (entry_point self) = CHR ''/''
           \<and> host self = h \<and> reconnect_time self = 0
           \<and> (\<forall>addr func now r.
                 map url (posts (snd (dispatch_message self addr func now r)))
                   = [butlast (entry_point self) @ ''/'' @ addr])" by blast
  qed
  from a b show ?thesis by blast
qed

theorem init_entry_point_slash_witness:
  "MochadClient_init ''127.0.0.1'' ''http://example.com/api'' = Inr example_client
   \<and> MochadClient_init ''127.0.0.1'' ''http://example.com/api/'' = Inr example_client
   \<and> entry_point example_client = ''http://example.com/api/''
   \<and> map url (posts (snd (dispatch_message example_client ''21:26:80'' ''Contact_alert_min_DS10A'' example_now (Responded 200 None))))
       = [''http://example.com/api/21:26:80'']"
proof -
  have ne: "''http://example.com/api'' \<noteq> []" and ne': "''http://example.com/api/'' \<noteq> []" by simp_all
  from init_entry_point_slash [of "''127.0.0.1''" "''http://example.com/api''"] ne
  obtain self where i: "MochadClient_init ''127.0.0.1'' ''http://example.com/api'' = Inr self"
    and e: "entry_point self = (if last ''http://example.com/api'' = CHR ''/'' then ''http://example.com/api'' else ''http://example.com/api'' @ ''/'')"
    and h: "host self = ''127.0.0.1''" and rt: "reconnect_time self = 0"
    and u: "\<forall>addr func now r. map url (posts (snd (dispatch_message self addr func now r)))
                   = [butlast (entry_point self) @ ''/'' @ addr]"
    by blast
  from e h rt have s: "self = example_client"
    by (simp add: example_client_def)
  from init_entry_point_slash [of "''127.0.0.1''" "''http://example.com/api/''"] ne'
  obtain self' where i': "MochadClient_init ''127.0.0.1'' ''http://example.com/api/'' = Inr self'"
    and e': "entry_point self' = (if last ''http://example.com/api/'' = CHR ''/'' then ''http://example.com/api/'' else ''http://example.com/api/'' @ ''/'')"
    and h': "host self' = ''127.0.0.1''" and rt': "reconnect_time self' = 0"
    by blast
  from e' h' rt' have s': "self' = example_client"
    by (simp add: example_client_def)
  have ep: "entry_point example_client = ''http://example.com/api/''"
    by (simp add: example_client_def)
  from u s have "map url (posts (snd (dispatch_message example_client ''21:26:80'' ''Contact_alert_min_DS10A'' example_now (Responded 200 None))))
       = [butlast (entry_point example_client) @ ''/'' @ ''21:26:80'']" by blast
  then have d: "map url (posts (snd (dispatch_message example_client ''21:26:80'' ''Contact_alert_min_DS10A'' example_now (Responded 200 None))))
       = [''http://example.com/api/21:26:80'']" by (simp add: ep)
  from i s i' s' ep d show ?thesis by blast
qed

section \<open>The dispatch coroutine\<close>

text \<open>
  C9. Whatever the outcome of the exchange, a dispatch makes exactly one request: a POST
  to the entry point followed by the address, with the header
  \<^verbatim>\<open>content-type: application/x-www-form-urlencoded\<close> and the body
  \<^verbatim>\<open>dispatch_time=\<close>, the encoded dispatch time, \<^verbatim>\<open>;func=\<close> and the function as
  parsed. The encoded dispatch time is percent-encoded: it consists of letters, digits,
  the marks \<^verbatim>\<open>_.-~/\<close> and percent escapes only, and decoding the escapes gives back
  the timestamp. The timestamp is the ISO-8601 rendering of the UTC clock: for every
  reading of the clock that a \<^verbatim>\<open>datetime\<close> can hold, it reads back as that reading,
  with the offset \<^verbatim>\<open>+00:00\<close>.
\<close>

theorem dispatch_request:
  "posts (snd (dispatch_message self addr func now r)) =
     [\<lparr>url = entry_point self @ addr,
       data = ''dispatch_time='' @ quote (isoformat now) @ '';func='' @ func,
       headers = [(''content-type'', ''application/x-www-form-urlencoded'')]\<rparr>]
   \<and> (\<forall>c\<in>set (quote (isoformat now)).
         c \<in> set ''ABCDEFGHIJKLMNOPQRSTUVWXYZabcdefghijklmnopqrstuvwxyz0123456789_.-~/%'')
   \<and> unquote (quote (isoformat now)) = isoformat now
   \<and> (1 \<le> year now \<and> year now \<le> 9999 \<and> 1 \<le> month now \<and> month now \<le> 12
        \<and> 1 \<le> day now \<and> day now \<le> 31 \<and> hour now \<le> 23 \<and> minute now \<le> 59
        \<and> second now \<le> 59 \<and> microsecond now \<le> 999999
       \<longrightarrow> fromisoformat (isoformat now) = Some now)"
proof -
  have a: "posts (snd (dispatch_message self addr func now r)) =
     [\<lparr>url = entry_point self @ addr,
       data = ''dispatch_time='' @ quote (isoformat now) @ '';func='' @ func,
       headers = [(''content-type'', ''application/x-www-form-urlencoded'')]\<rparr>]"
    by (rule posts_dispatch)
  have b: "\<forall>c\<in>set (quote (isoformat now)).
         c \<in> set ''ABCDEFGHIJKLMNOPQRSTUVWXYZabcdefghijklmnopqrstuvwxyz0123456789_.-~/%''"
    using quote_chars [of "isoformat now"] unfolding list_all_iff url_char_def .
  have c: "unquote (quote (isoformat now)) = isoformat now"
    by (rule unquote_quote [OF isoformat_ascii])
  have d: "1 \<le> year now \<and> year now \<le> 9999 \<and> 1 \<le> month now \<and> month now \<le> 12
        \<and> 1 \<le> day now \<and> day now \<le> 31 \<and> hour now \<le> 23 \<and> minute now \<le> 59
        \<and> second now \<le> 59 \<and> microsecond now \<le> 999999
       \<longrightarrow> fromisoformat (isoformat now) = Some now"
    using fromisoformat_isoformat [of now] by blast
  from a b c d show ?thesis by (intro conjI)
qed

text \<open>
  The dispatch of the message of line 35 at 15:39:07.000123 UTC on 22 September 2015.
\<close>

theorem dispatch_request_witness:
  "posts (snd (dispatch_message example_client ''21:26:80'' ''Contact_alert_min_DS10A'' example_now (Responded 200 None))) =
     [\<lparr>url = ''http://example.com/api/21:26:80'',
       data = ''dispatch_time=2015-09-22T15%3A39%3A07.000123%2B00%3A00;func=Contact_alert_min_DS10A'',
       headers = [(''content-type'', ''application/x-www-form-urlencoded'')]\<rparr>]
   \<and> unquote ''2015-09-22T15%3A39%3A07.000123%2B00%3A00'' = ''2015-09-22T15:39:07.000123+00:00''
   \<and> fromisoformat ''2015-09-22T15:39:07.000123+00:00'' = Some example_now"
proof -
  note t = dispatch_request [of example_client "''21:26:80''" "''Contact_alert_min_DS10A''"
      example_now "Responded 200 None"]
  from t have "posts (snd (dispatch_message example_client ''21:26:80'' ''Contact_alert_min_DS10A'' example_now (Responded 200 None))) =
     [\<lparr>url = entry_point example_client @ ''21:26:80'',
       data = ''dispatch_time='' @ quote (isoformat example_now) @ '';func='' @ ''Contact_alert_min_DS10A'',
       headers = [(''content-type'', ''application/x-www-form-urlencoded'')]\<rparr>]"
    by (rule conjunct1)
  then have a: "posts (snd (dispatch_message example_client ''21:26:80'' ''Contact_alert_min_DS10A'' example_now (Responded 200 None))) =
     [\<lparr>url = ''http://example.com/api/21:26:80'',
       data = ''dispatch_time=2015-09-22T15%3A39%3A07.000123%2B00%3A00;func=Contact_alert_min_DS10A'',
       headers = [(''content-type'', ''application/x-www-form-urlencoded'')]\<rparr>]"
    by (simp add: isoformat_example quote_example) (simp add: example_client_def)
  from t have "unquote (quote (isoformat example_now)) = isoformat example_now" by blast
  then have b: "unquote ''2015-09-22T15%3A39%3A07.000123%2B00%3A00'' = ''2015-09-22T15:39:07.000123+00:00''"
    by (simp only: isoformat_example quote_example)
  from t example_now_fields have "fromisoformat (isoformat example_now) = Some example_now"
    by blast
  then have c: "fromisoformat ''2015-09-22T15:39:07.000123+00:00'' = Some example_now"
    by (simp only: isoformat_example)
  from a b c show ?thesis by (intro conjI)
qed

text \<open>
  C8. No exception leaves a dispatch: whatever the exchange raises, the
  \<^verbatim>\<open>try\<close> statement ends normally, with the failure reason the dispatch goes on
  with. A dispatch leaves the client object as it found it and makes one request, never
  a second. With a response of status 200 and no exception it records no failure and
  logs nothing. In every other case (a status other than 200, an exception of the
  request, an exception while the response is released) the failure reason is not blank
  and one line is logged at level info, with the reason, the dispatch time, the address
  and the function.
\<close>

theorem dispatch_outcome:
  "try_except r = Inr (fail_msg_of r)
   \<and> fst (dispatch_message self addr func now r) = self
   \<and> length (posts (snd (dispatch_message self addr func now r))) = 1
   \<and> (r = Responded 200 None \<longrightarrow>
         fail_msg_of r = [] \<and> logs (snd (dispatch_message self addr func now r)) = [])
   \<and> (r \<noteq> Responded 200 None \<longrightarrow>
         fail_msg_of r \<noteq> []
         \<and> logs (snd (dispatch_message self addr func now r)) =
             [(Info, ''dispatch failed: '' @ fail_msg_of r @ '' epoch time '' @ isoformat now
                     @ '' address '' @ addr @ '' func '' @ func)])
   \<and> (\<forall>status. status \<noteq> 200 \<longrightarrow>
         fail_msg_of (Responded status None) = ''HTTP status '' @ str_nat status)
   \<and> (\<forall>e. fail_msg_of (PostRaised e) = ''Caught exception: '' @ e)
   \<and> (\<forall>status e. fail_msg_of (Responded status (Some e)) = ''Caught exception: '' @ e)"
proof -
  have n: "try_except r = Inr (fail_msg_of r)"
    by (rule try_except_fail_msg)
  have a: "fst (dispatch_message self addr func now r) = self"
    by (simp add: dispatch_message_def Let_def)
  have b: "length (posts (snd (dispatch_message self addr func now r))) = 1"
    by (simp add: posts_dispatch)
  have c: "r = Responded 200 None \<longrightarrow>
         fail_msg_of r = [] \<and> logs (snd (dispatch_message self addr func now r)) = []"
    by (simp add: logs_dispatch fail_msg_of_empty)
  have d: "r \<noteq> Responded 200 None \<longrightarrow>
         fail_msg_of r \<noteq> []
         \<and> logs (snd (dispatch_message self addr func now r)) =
             [(Info, ''dispatch failed: '' @ fail_msg_of r @ '' epoch time '' @ isoformat now
                     @ '' address '' @ addr @ '' func '' @ func)]"
    by (simp add: logs_dispatch fail_msg_of_empty)
  have e: "\<forall>status. status \<noteq> 200 \<longrightarrow>
         fail_msg_of (Responded status None) = ''HTTP status '' @ str_nat status"
    by (simp add: fail_msg_of_cases)
  have f: "\<forall>e. fail_msg_of (PostRaised e) = ''Caught exception: '' @ e"
    by (simp add: fail_msg_of_cases)
  have g: "\<forall>status e. fail_msg_of (Responded status (Some e)) = ''Caught exception: '' @ e"
    by (simp add: fail_msg_of_cases)
  from n a b c d e f g show ?thesis by (intro conjI)
qed

lemma str_nat_500: "str_nat 500 = ''500''"
  by code_simp

theorem dispatch_outcome_witness:
  "try_except (PostRaised ''Cannot connect to host'') = Inr ''Caught exception: Cannot connect to host''
   \<and> fail_msg_of (Responded 200 None) = []
   \<and> logs (snd (dispatch_message example_client ''21:26:80'' ''Contact_alert_min_DS10A'' example_now (Responded 200 None))) = []
   \<and> fail_msg_of (Responded 500 None) = ''HTTP status 500''
   \<and> logs (snd (dispatch_message example_client ''21:26:80'' ''Contact_alert_min_DS10A'' example_now (Responded 500 None)))
       = [(Info, ''dispatch failed: HTTP status 500 epoch time 2015-09-22T15:39:07.000123+00:00 address 21:26:80 func Contact_alert_min_DS10A'')]
   \<and> fail_msg_of (PostRaised ''Cannot connect to host'') = ''Caught exception: Cannot connect to host''
   \<and> length (posts (snd (dispatch_message example_client ''21:26:80'' ''Contact_alert_min_DS10A'' example_now (PostRaised ''Cannot connect to host'')))) = 1
   \<and> fst (dispatch_message example_client ''21:26:80'' ''Contact_alert_min_DS10A'' example_now (PostRaised ''Cannot connect to host'')) = example_client"
proof -
  let ?d = "dispatch_message example_client ''21:26:80'' ''Contact_alert_min_DS10A'' example_now"
  note ok = dispatch_outcome [where self = example_client and addr = "''21:26:80''"
      and func = "''Contact_alert_min_DS10A''" and now = example_now and r = "Responded 200 None"]
  note bad = dispatch_outcome [where self = example_client and addr = "''21:26:80''"
      and func = "''Contact_alert_min_DS10A''" and now = example_now and r = "Responded 500 None"]
  note exc = dispatch_outcome [where self = example_client and addr = "''21:26:80''"
      and func = "''Contact_alert_min_DS10A''" and now = example_now and r = "PostRaised ''Cannot connect to host''"]
  from ok have a: "fail_msg_of (Responded 200 None) = []" and b: "logs (snd (?d (Responded 200 None))) = []"
    by blast+
  from bad have "(500::nat) \<noteq> 200 \<longrightarrow> fail_msg_of (Responded 500 None) = ''HTTP status '' @ str_nat 500"
    by blast
  then have c: "fail_msg_of (Responded 500 None) = ''HTTP status 500''"
    by (simp add: str_nat_500)
  have "Responded 500 None \<noteq> Responded 200 None" by simp
  with bad have "logs (snd (?d (Responded 500 None))) =
             [(Info, ''dispatch failed: '' @ fail_msg_of (Responded 500 None) @ '' epoch time '' @ isoformat example_now
                     @ '' address '' @ ''21:26:80'' @ '' func '' @ ''Contact_alert_min_DS10A'')]"
    by blast
  then have d: "logs (snd (?d (Responded 500 None)))
       = [(Info, ''dispatch failed: HTTP status 500 epoch time 2015-09-22T15:39:07.000123+00:00 address 21:26:80 func Contact_alert_min_DS10A'')]"
    by (simp add: c isoformat_example)
  from exc have "fail_msg_of (PostRaised ''Cannot connect to host'') = ''Caught exception: '' @ ''Cannot connect to host''"
    by blast
  then have e: "fail_msg_of (PostRaised ''Cannot connect to host'') = ''Caught exception: Cannot connect to host''"
    by simp
  from exc have f: "length (posts (snd (?d (PostRaised ''Cannot connect to host'')))) = 1"
    and g: "fst (?d (PostRaised ''Cannot connect to host'')) = example_client"
    by blast+
  from exc e have n: "try_except (PostRaised ''Cannot connect to host'') = Inr ''Caught exception: Cannot connect to host''"
    by simp
  from n a b c d e f g show ?thesis by (intro conjI)
qed

text \<open>
  An exception while the response is released is a failure whatever the status was:
  line 77 stands inside the \<^verbatim>\<open>try\<close>.
\<close>

lemma dispatch_release_raises_after_200:
  "fail_msg_of (Responded 200 (Some ''Connection reset by peer'')) = ''Caught exception: Connection reset by peer''
   \<and> logs (snd (dispatch_message example_client ''21:26:80'' ''Contact_alert_min_DS10A'' example_now
                  (Responded 200 (Some ''Connection reset by peer''))))
       = [(Info, ''dispatch failed: Caught exception: Connection reset by peer epoch time 2015-09-22T15:39:07.000123+00:00 address 21:26:80 func Contact_alert_min_DS10A'')]"
  by (simp add: logs_dispatch fail_msg_of_cases isoformat_example)

section \<open>The worker coroutine\<close>

lemma run_append:
  "run s (es1 @ es2) =
     (case run s es1 of (s', a1) \<Rightarrow> (case run s' es2 of (s'', a2) \<Rightarrow> (s'', a1 @ a2)))"
  by (induction es1 arbitrary: s) (auto split: prod.splits)

lemma run_Returned: "run (self, Returned) es = ((self, Returned), [])"
  by (induction es) auto

lemma run_Raised: "run (self, Raised x) es = ((self, Raised x), [])"
  by (induction es) auto

lemma waits_append:
  "waits pending (as @ bs) = (waits pending as \<and> waits (pending_after pending as) bs)"
  by (induction pending as rule: waits.induct) auto

lemma exhausted_step:
  "reconnect_time self \<noteq> 0 \<Longrightarrow> clock e - reconnect_time self > 60 \<Longrightarrow>
   worker_step (self, Connecting) e =
     ((self, Returned), [Sleep 1, Log Error ''Could not reconnect after 60s''])"
  by simp

lemma retry_step:
  "reconnect_time self \<noteq> 0 \<Longrightarrow> clock e - reconnect_time self \<le> 60 \<Longrightarrow> conn e = ConnOSError \<Longrightarrow>
   worker_step (self, Connecting) e = ((self, Connecting), [Sleep 1, Connect ConnOSError])"
  by simp

lemma step_waits:
  assumes inv: "wait_inv pending s" and clk: "clock e \<noteq> 0"
  shows "waits pending (snd (worker_step s e))
       \<and> wait_inv (pending_after pending (snd (worker_step s e))) (fst (worker_step s e))"
proof (cases s)
  case (Pair self l)
  show ?thesis
  proof (cases l)
    case Connecting
    with Pair inv clk show ?thesis
      by (cases "conn e") (auto simp: wait_inv_def Let_def)
  next
    case Reading
    with Pair inv clk show ?thesis
      by (cases "rd e") (auto simp: wait_inv_def split: prod.splits)
  next
    case Returned
    with Pair inv show ?thesis by (simp add: wait_inv_def)
  next
    case (Raised x)
    with Pair inv show ?thesis by (simp add: wait_inv_def)
  qed
qed

lemma run_waits:
  "wait_inv pending s \<Longrightarrow> \<forall>e\<in>set es. clock e \<noteq> 0 \<Longrightarrow> waits pending (snd (run s es))"
proof (induction es arbitrary: s pending)
  case Nil
  then show ?case by simp
next
  case (Cons e es)
  from Cons.prems have clk: "clock e \<noteq> 0" by simp
  from Cons.prems have rest: "\<forall>e\<in>set es. clock e \<noteq> 0" by simp
  obtain s1 a1 where st: "worker_step s e = (s1, a1)" by (metis prod.exhaust)
  obtain s2 a2 where r: "run s1 es = (s2, a2)" by (metis prod.exhaust)
  from step_waits [OF Cons.prems(1) clk] st
  have w1: "waits pending a1" and i1: "wait_inv (pending_after pending a1) s1" by simp_all
  from Cons.IH [OF i1 rest] r have w2: "waits (pending_after pending a1) a2" by simp
  from st r w1 w2 show ?case by (simp add: waits_append)
qed

lemma read_loop_run:
  "map rd es = map Line raws \<Longrightarrow> \<forall>raw\<in>set raws. raw \<noteq> [] \<Longrightarrow>
   run (self, Reading) es =
     ((self, Reading),
      concat (map (\<lambda>raw. case event_of (parse_mochad_line (rstrip raw)) of
                            None \<Rightarrow> [] | Some (addr, func) \<Rightarrow> [Task addr func]) raws))"
proof (induction raws arbitrary: es)
  case Nil
  then show ?case by simp
next
  case (Cons raw raws)
  from Cons.prems(1) obtain e es' where es: "es = e # es'" and e: "rd e = Line raw"
    and es': "map rd es' = map Line raws"
    by (cases es) auto
  from Cons.prems(2) have ne: "raw \<noteq> []" and rest: "\<forall>raw\<in>set raws. raw \<noteq> []" by simp_all
  from Cons.IH [OF es' rest] read_step_line [OF e ne, of self] show ?case
    unfolding es by (simp del: worker_step.simps)
qed

lemma inv_step:
  "worker_step (self, l) e = ((self', l'), acts) \<Longrightarrow> (l = Reading \<longrightarrow> reconnect_time self = 0) \<Longrightarrow>
   (l' = Reading \<longrightarrow> reconnect_time self' = 0)"
  by (cases l; cases "conn e"; cases "rd e") (auto simp: Let_def split: if_splits prod.splits)

lemma inv_run:
  "run (self, l) es = ((self', l'), acts) \<Longrightarrow> (l = Reading \<longrightarrow> reconnect_time self = 0) \<Longrightarrow>
   (l' = Reading \<longrightarrow> reconnect_time self' = 0)"
proof (induction es arbitrary: self l acts)
  case Nil
  then show ?case by simp
next
  case (Cons e es)
  obtain self1 l1 a1 where st: "worker_step (self, l) e = ((self1, l1), a1)"
    by (metis prod.exhaust)
  obtain s2 a2 where r: "run (self1, l1) es = (s2, a2)" by (metis prod.exhaust)
  from Cons.prems(1) st r have s2: "s2 = (self', l')" by simp
  from inv_step [OF st Cons.prems(2)] have "l1 = Reading \<longrightarrow> reconnect_time self1 = 0" .
  from Cons.IH [OF r [unfolded s2] this] show ?case .
qed

lemma retry_run:
  "reconnect_time self \<noteq> 0 \<Longrightarrow>
   \<forall>e\<in>set es. conn e = ConnOSError \<and> clock e - reconnect_time self \<le> 60 \<Longrightarrow>
   run (self, Connecting) es =
     ((self, Connecting), concat (map (\<lambda>e. [Sleep 1, Connect ConnOSError]) es))"
  by (induction es) (simp_all add: retry_step del: worker_step.simps)

lemma event_of_line:
  assumes "slice l 15 23 = ''Rx RFSEC'' \<longrightarrow> 45 < length l"
  shows "(case event_of (parse_mochad_line l) of
            None \<Rightarrow> [] | Some (addr, func) \<Rightarrow> [Task addr func]) =
         (if slice l 15 23 = ''Rx RFSEC'' then [Task (slice l 30 38) (drop 45 l)] else [])"
proof (cases "slice l 15 23 = ''Rx RFSEC''")
  case True
  with assms have len: "45 < length l" by blast
  have "slice l 30 38 \<noteq> []" and "drop 45 l \<noteq> []"
    using len by (simp_all add: slice_def)
  with True show ?thesis by (simp add: parse_mochad_line_def event_of_def)
next
  case False
  then show ?thesis by (simp add: parse_mochad_line_def event_of_def)
qed

lemma tasks_of_lines:
  "\<forall>raw\<in>set raws. slice (rstrip raw) 15 23 = ''Rx RFSEC'' \<longrightarrow> 45 < length (rstrip raw) \<Longrightarrow>
   concat (map (\<lambda>raw. case event_of (parse_mochad_line (rstrip raw)) of
                         None \<Rightarrow> [] | Some (addr, func) \<Rightarrow> [Task addr func]) raws) =
   map (\<lambda>raw. Task (slice (rstrip raw) 30 38) (drop 45 (rstrip raw)))
       (filter (\<lambda>raw. slice (rstrip raw) 15 23 = ''Rx RFSEC'') raws)"
proof (induction raws)
  case Nil
  then show ?case by simp
next
  case (Cons raw raws)
  from Cons.prems have h: "slice (rstrip raw) 15 23 = ''Rx RFSEC'' \<longrightarrow> 45 < length (rstrip raw)"
    by simp
  from Cons.prems have "\<forall>raw\<in>set raws. slice (rstrip raw) 15 23 = ''Rx RFSEC'' \<longrightarrow> 45 < length (rstrip raw)"
    by simp
  from Cons.IH [OF this] event_of_line [OF h] show ?case by simp
qed

lemma tasks_parsed:
  "map (\<lambda>raw. Task (fst (parse_mochad_line (rstrip raw))) (snd (parse_mochad_line (rstrip raw))))
       (filter (\<lambda>raw. slice (rstrip raw) 15 23 = ''Rx RFSEC'') raws) =
   map (\<lambda>raw. Task (slice (rstrip raw) 30 38) (drop 45 (rstrip raw)))
       (filter (\<lambda>raw. slice (rstrip raw) 15 23 = ''Rx RFSEC'') raws)"
  by (induction raws) (simp_all add: parse_mochad_line_def)

text \<open>
  C4. Let the lines read on one connection be \<open>raws\<close>, none of them the empty read,
  each of them (once stripped) either without the tag at offsets 15..22 or tagged and
  longer than 45 characters. Then the read loop stays in the read loop and does nothing
  but spawn dispatches: one for each tagged line, in the order the lines were read, with
  the address and the function parsed from that line, which are its characters at
  offsets 30..37 and from offset 45 on. So there are as many dispatches as tagged lines.
\<close>

theorem read_loop_dispatches_in_order:
  assumes rd: "map rd es = map Line raws"
    and wf: "\<forall>raw\<in>set raws. raw \<noteq> []
               \<and> (slice (rstrip raw) 15 23 = ''Rx RFSEC'' \<longrightarrow> 45 < length (rstrip raw))"
  shows "run (self, Reading) es =
           ((self, Reading),
            map (\<lambda>raw. Task (fst (parse_mochad_line (rstrip raw)))
                             (snd (parse_mochad_line (rstrip raw))))
                (filter (\<lambda>raw. slice (rstrip raw) 15 23 = ''Rx RFSEC'') raws))
       \<and> snd (run (self, Reading) es) =
            map (\<lambda>raw. Task (slice (rstrip raw) 30 38) (drop 45 (rstrip raw)))
                (filter (\<lambda>raw. slice (rstrip raw) 15 23 = ''Rx RFSEC'') raws)
       \<and> length (snd (run (self, Reading) es)) =
            length (filter (\<lambda>raw. slice (rstrip raw) 15 23 = ''Rx RFSEC'') raws)"
proof -
  from wf have ne: "\<forall>raw\<in>set raws. raw \<noteq> []" by blast
  from wf have lay: "\<forall>raw\<in>set raws. slice (rstrip raw) 15 23 = ''Rx RFSEC'' \<longrightarrow> 45 < length (rstrip raw)"
    by blast
  have r: "run (self, Reading) es =
      ((self, Reading),
       map (\<lambda>raw. Task (slice (rstrip raw) 30 38) (drop 45 (rstrip raw)))
           (filter (\<lambda>raw. slice (rstrip raw) 15 23 = ''Rx RFSEC'') raws))"
    unfolding read_loop_run [OF rd ne] tasks_of_lines [OF lay] ..
  have a: "run (self, Reading) es =
           ((self, Reading),
            map (\<lambda>raw. Task (fst (parse_mochad_line (rstrip raw)))
                             (snd (parse_mochad_line (rstrip raw))))
                (filter (\<lambda>raw. slice (rstrip raw) 15 23 = ''Rx RFSEC'') raws))"
    unfolding r tasks_parsed ..
  have b: "snd (run (self, Reading) es) =
            map (\<lambda>raw. Task (slice (rstrip raw) 30 38) (drop 45 (rstrip raw)))
                (filter (\<lambda>raw. slice (rstrip raw) 15 23 = ''Rx RFSEC'') raws)"
    unfolding r by (rule snd_conv)
  have c: "length (snd (run (self, Reading) es)) =
            length (filter (\<lambda>raw. slice (rstrip raw) 15 23 = ''Rx RFSEC'') raws)"
    unfolding b by (rule length_map)
  from a b c show ?thesis by (intro conjI)
qed

text \<open>
  Two RFSEC messages with another message between them: two dispatches, in order.
\<close>

theorem read_loop_dispatches_in_order_witness:
  "run (example_client, Reading)
     [\<lparr>clock = 1442936347, conn = ConnOk, rd = Line line_contact\<rparr>,
      \<lparr>clock = 1442936348, conn = ConnOk, rd = Line line_other\<rparr>,
      \<lparr>clock = 1442936411, conn = ConnOk, rd = Line line_motion\<rparr>]
   = ((example_client, Reading),
      [Task ''21:26:80'' ''Contact_alert_min_DS10A'', Task ''5C:E1:00'' ''Motion_alert_MS10A''])"
proof -
  let ?es = "[\<lparr>clock = 1442936347, conn = ConnOk, rd = Line line_contact\<rparr>,
              \<lparr>clock = 1442936348, conn = ConnOk, rd = Line line_other\<rparr>,
              \<lparr>clock = 1442936411, conn = ConnOk, rd = Line line_motion\<rparr>]"
  have rd: "map rd ?es = map Line [line_contact, line_other, line_motion]" by simp
  have wf: "\<forall>raw\<in>set [line_contact, line_other, line_motion]. raw \<noteq> []
               \<and> (slice (rstrip raw) 15 23 = ''Rx RFSEC'' \<longrightarrow> 45 < length (rstrip raw))"
    by (simp add: rstrip_examples example_lines_nonempty slice_def)
  from read_loop_dispatches_in_order [OF rd wf, of example_client]
  have "run (example_client, Reading) ?es =
           ((example_client, Reading),
            map (\<lambda>raw. Task (fst (parse_mochad_line (rstrip raw)))
                             (snd (parse_mochad_line (rstrip raw))))
                (filter (\<lambda>raw. slice (rstrip raw) 15 23 = ''Rx RFSEC'')
                   [line_contact, line_other, line_motion]))"
    by blast
  then show ?thesis
    by (simp add: rstrip_examples slice_def parse_mochad_line_def
             del: run.simps worker_step.simps)
qed

text \<open>
  C1. In every run of the worker in which no reading of the clock is 0 (the value the
  code keeps for "clock not set"), no call of \<^verbatim>\<open>connect\<close> follows a failed call
  without a sleep of one second in between. While the reconnect clock is set and the
  reading taken after the sleep is at most 60 seconds past it, a failing attempt leaves
  the clock as it was first set. As soon as the reading is more than 60 seconds past the
  clock, the worker sleeps, logs the error \<^verbatim>\<open>Could not reconnect after 60s\<close> and
  returns without calling \<^verbatim>\<open>connect\<close>; whatever the environment offers afterwards,
  it does nothing more.
\<close>

theorem reconnect_wait_and_exhaustion:
  "(\<forall>self es. (\<forall>e\<in>set es. clock e \<noteq> 0) \<longrightarrow> waits False (snd (run (self, Connecting) es)))
   \<and> (\<forall>self e. reconnect_time self \<noteq> 0 \<and> clock e - reconnect_time self \<le> 60
                 \<and> conn e = ConnOSError \<longrightarrow>
          worker_step (self, Connecting) e = ((self, Connecting), [Sleep 1, Connect ConnOSError]))
   \<and> (\<forall>self e. reconnect_time self \<noteq> 0 \<and> clock e - reconnect_time self > 60 \<longrightarrow>
          worker_step (self, Connecting) e =
            ((self, Returned), [Sleep 1, Log Error ''Could not reconnect after 60s'']))
   \<and> (\<forall>self0 es1 self tr e es2.
          run (self0, Connecting) es1 = ((self, Connecting), tr)
          \<and> reconnect_time self \<noteq> 0 \<and> clock e - reconnect_time self > 60 \<longrightarrow>
          run (self0, Connecting) (es1 @ e # es2) =
            ((self, Returned), tr @ [Sleep 1, Log Error ''Could not reconnect after 60s'']))"
proof -
  have a: "\<forall>self es. (\<forall>e\<in>set es. clock e \<noteq> 0) \<longrightarrow> waits False (snd (run (self, Connecting) es))"
    by (simp add: run_waits wait_inv_def)
  have b: "\<forall>self e. reconnect_time self \<noteq> 0 \<and> clock e - reconnect_time self \<le> 60
                 \<and> conn e = ConnOSError \<longrightarrow>
          worker_step (self, Connecting) e = ((self, Connecting), [Sleep 1, Connect ConnOSError])"
    using retry_step by blast
  have c: "\<forall>self e. reconnect_time self \<noteq> 0 \<and> clock e - reconnect_time self > 60 \<longrightarrow>
          worker_step (self, Connecting) e =
            ((self, Returned), [Sleep 1, Log Error ''Could not reconnect after 60s''])"
    using exhausted_step by blast
  have d: "\<forall>self0 es1 self tr e es2.
          run (self0, Connecting) es1 = ((self, Connecting), tr)
          \<and> reconnect_time self \<noteq> 0 \<and> clock e - reconnect_time self > 60 \<longrightarrow>
          run (self0, Connecting) (es1 @ e # es2) =
            ((self, Returned), tr @ [Sleep 1, Log Error ''Could not reconnect after 60s''])"
  proof (intro allI impI)
    fix self0 self :: client and es1 es2 :: "env list" and tr :: "action list" and e :: env
    assume h: "run (self0, Connecting) es1 = ((self, Connecting), tr)
          \<and> reconnect_time self \<noteq> 0 \<and> clock e - reconnect_time self > 60"
    then have st: "worker_step (self, Connecting) e =
            ((self, Returned), [Sleep 1, Log Error ''Could not reconnect after 60s''])"
      using exhausted_step by blast
    from h st show "run (self0, Connecting) (es1 @ e # es2) =
            ((self, Returned), tr @ [Sleep 1, Log Error ''Could not reconnect after 60s''])"
      by (simp add: run_append run_Returned del: worker_step.simps)
  qed
  from a b c d show ?thesis by blast
qed

text \<open>
  Two failed attempts 30 seconds apart, then a reading 61 seconds after the first
  failure: the worker gives up although the next attempt would have succeeded.
\<close>

theorem reconnect_wait_and_exhaustion_witness:
  "waits False (snd (run (example_client, Connecting)
      [\<lparr>clock = 1442936347, conn = ConnOSError, rd = Line []\<rparr>,
       \<lparr>clock = 1442936377, conn = ConnOSError, rd = Line []\<rparr>,
       \<lparr>clock = 1442936408, conn = ConnOk, rd = Line []\<rparr>,
       \<lparr>clock = 1442936409, conn = ConnOk, rd = Line []\<rparr>]))
   \<and> run (example_client, Connecting)
      [\<lparr>clock = 1442936347, conn = ConnOSError, rd = Line []\<rparr>,
       \<lparr>clock = 1442936377, conn = ConnOSError, rd = Line []\<rparr>,
       \<lparr>clock = 1442936408, conn = ConnOk, rd = Line []\<rparr>,
       \<lparr>clock = 1442936409, conn = ConnOk, rd = Line []\<rparr>]
     = ((example_client\<lparr>reconnect_time := 1442936347\<rparr>, Returned),
        [Connect ConnOSError, Log Warn ''Could not connect to mochad. Retrying'',
         Sleep 1, Connect ConnOSError,
         Sleep 1, Log Error ''Could not reconnect after 60s''])"
proof -
  let ?e1 = "\<lparr>clock = 1442936347, conn = ConnOSError, rd = Line []\<rparr>"
  let ?e2 = "\<lparr>clock = 1442936377, conn = ConnOSError, rd = Line []\<rparr>"
  let ?e3 = "\<lparr>clock = 1442936408, conn = ConnOk, rd = Line []\<rparr>"
  let ?e4 = "\<lparr>clock = 1442936409, conn = ConnOk, rd = Line []\<rparr>"
  let ?c = "example_client\<lparr>reconnect_time := 1442936347\<rparr>"
  note t = reconnect_wait_and_exhaustion
  have clk: "\<forall>e\<in>set [?e1, ?e2, ?e3, ?e4]. clock e \<noteq> 0" by simp
  from t clk have w: "waits False (snd (run (example_client, Connecting) [?e1, ?e2, ?e3, ?e4]))"
    by blast
  have s1: "worker_step (example_client, Connecting) ?e1 =
      ((?c, Connecting), [Connect ConnOSError, Log Warn ''Could not connect to mochad. Retrying''])"
    by (simp add: example_client_def)
  have rt: "reconnect_time ?c \<noteq> 0" by simp
  have "clock ?e2 - reconnect_time ?c \<le> 60" by simp
  with t rt have s2: "worker_step (?c, Connecting) ?e2 = ((?c, Connecting), [Sleep 1, Connect ConnOSError])"
    by (metis (no_types) env.select_convs(2))
  from s1 s2 have r12: "run (example_client, Connecting) [?e1, ?e2] =
      ((?c, Connecting), [Connect ConnOSError, Log Warn ''Could not connect to mochad. Retrying''] @
         [Sleep 1, Connect ConnOSError])"
    by (simp del: worker_step.simps)
  have late: "clock ?e3 - reconnect_time ?c > 60" by simp
  from t r12 rt late
  have "run (example_client, Connecting) ([?e1, ?e2] @ ?e3 # [?e4]) =
      ((?c, Returned), ([Connect ConnOSError, Log Warn ''Could not connect to mochad. Retrying''] @
         [Sleep 1, Connect ConnOSError]) @ [Sleep 1, Log Error ''Could not reconnect after 60s''])"
    by blast
  then have r: "run (example_client, Connecting) [?e1, ?e2, ?e3, ?e4] =
      ((?c, Returned),
        [Connect ConnOSError, Log Warn ''Could not connect to mochad. Retrying'',
         Sleep 1, Connect ConnOSError,
         Sleep 1, Log Error ''Could not reconnect after 60s''])"
    by (simp del: run.simps worker_step.simps)
  from w r show ?thesis by (rule conjI)
qed

lemma connected_step:
  "worker_step (self, Connecting) e = ((self', Reading), acts) \<Longrightarrow>
   conn e = ConnOk \<and> reconnect_time self' = 0"
  by (cases "conn e") (auto simp: Let_def split: if_splits)

lemma connect_ok_step:
  "conn e = ConnOk \<Longrightarrow> \<not> (reconnect_time self \<noteq> 0 \<and> clock e - reconnect_time self > 60) \<Longrightarrow>
   fst (worker_step (self, Connecting) e) = (self\<lparr>reconnect_time := 0\<rparr>, Reading)"
  by (auto simp: Let_def)

lemma clock_set_step:
  assumes unset: "reconnect_time self = 0" and clk: "clock e \<noteq> 0"
    and st: "worker_step (self, l) e = ((self', l'), acts)"
  shows "(reconnect_time self' \<noteq> 0) =
           ((l = Connecting \<and> conn e = ConnOSError) \<or> (l = Reading \<and> rd e = Line []))
       \<and> (reconnect_time self' \<noteq> 0 \<longrightarrow> reconnect_time self' = clock e \<and> l' = Connecting)"
proof (cases l)
  case Connecting
  with assms show ?thesis by (cases "conn e") (auto simp: Let_def)
next
  case Reading
  with assms show ?thesis by (cases "rd e") (auto split: if_splits prod.splits)
next
  case Returned
  with assms show ?thesis by auto
next
  case (Raised x)
  with assms show ?thesis by auto
qed

lemma stream_closed_step:
  "rd e = Line [] \<Longrightarrow>
   worker_step (self, Reading) e =
     ((self\<lparr>reconnect_time := clock e\<rparr>, Connecting),
      [Log Warn ''Lost connection to mochad. Retrying.''])"
  by simp

lemma episode_run:
  assumes eof: "rd e0 = Line []" and clk: "clock e0 \<noteq> 0"
    and es: "\<forall>e\<in>set es. conn e = ConnOSError \<and> clock e - clock e0 \<le> 60"
  shows "run (self, Reading) (e0 # es) =
           ((self\<lparr>reconnect_time := clock e0\<rparr>, Connecting),
            Log Warn ''Lost connection to mochad. Retrying.''
              # concat (map (\<lambda>e. [Sleep 1, Connect ConnOSError]) es))"
proof -
  let ?c = "self\<lparr>reconnect_time := clock e0\<rparr>"
  have rt: "reconnect_time ?c \<noteq> 0" using clk by simp
  have "\<forall>e\<in>set es. conn e = ConnOSError \<and> clock e - reconnect_time ?c \<le> 60"
    using es by simp
  from retry_run [OF rt this] stream_closed_step [OF eof, of self] show ?thesis
    by (simp del: worker_step.simps)
qed

text \<open>
  C2. The read loop is entered only through a successful \<^verbatim>\<open>connect\<close>, which sets the
  reconnect clock to 0 (unset); every successful attempt does so. In every run of the
  worker, the clock is unset whenever the worker is in the read loop. From an unset
  clock, and with a reading of the clock that is not 0, a step sets the clock exactly
  when it is a connection attempt that fails with \<^verbatim>\<open>OSError\<close> or a read that finds
  the stream closed; the clock is then that reading, and the worker is at the head of
  the connection loop. A failure episode that starts with the closing of the stream has
  a budget of its own: as long as the readings stay within 60 seconds of the reading at
  which the stream closed, the worker keeps sleeping and trying, whatever happened before
  the connection was made.
\<close>

theorem reconnect_clock_lifecycle:
  "(\<forall>self e self' acts. worker_step (self, Connecting) e = ((self', Reading), acts) \<longrightarrow>
        conn e = ConnOk \<and> reconnect_time self' = 0)
   \<and> (\<forall>self e. conn e = ConnOk
          \<and> \<not> (reconnect_time self \<noteq> 0 \<and> clock e - reconnect_time self > 60) \<longrightarrow>
        fst (worker_step (self, Connecting) e) = (self\<lparr>reconnect_time := 0\<rparr>, Reading))
   \<and> (\<forall>self0 es self acts. run (self0, Connecting) es = ((self, Reading), acts) \<longrightarrow>
        reconnect_time self = 0)
   \<and> (\<forall>self l e self' l' acts.
        reconnect_time self = 0 \<and> clock e \<noteq> 0 \<and> worker_step (self, l) e = ((self', l'), acts) \<longrightarrow>
          (reconnect_time self' \<noteq> 0) =
             ((l = Connecting \<and> conn e = ConnOSError) \<or> (l = Reading \<and> rd e = Line []))
          \<and> (reconnect_time self' \<noteq> 0 \<longrightarrow> reconnect_time self' = clock e \<and> l' = Connecting))
   \<and> (\<forall>self e0 es.
        rd e0 = Line [] \<and> clock e0 \<noteq> 0
        \<and> (\<forall>e\<in>set es. conn e = ConnOSError \<and> clock e - clock e0 \<le> 60) \<longrightarrow>
          run (self, Reading) (e0 # es) =
            ((self\<lparr>reconnect_time := clock e0\<rparr>, Connecting),
             Log Warn ''Lost connection to mochad. Retrying.''
               # concat (map (\<lambda>e. [Sleep 1, Connect ConnOSError]) es)))"
proof -
  have a: "\<forall>self e self' acts. worker_step (self, Connecting) e = ((self', Reading), acts) \<longrightarrow>
        conn e = ConnOk \<and> reconnect_time self' = 0"
    using connected_step by blast
  have b: "\<forall>self e. conn e = ConnOk
          \<and> \<not> (reconnect_time self \<noteq> 0 \<and> clock e - reconnect_time self > 60) \<longrightarrow>
        fst (worker_step (self, Connecting) e) = (self\<lparr>reconnect_time := 0\<rparr>, Reading)"
    using connect_ok_step by blast
  have c: "\<forall>self0 es self acts. run (self0, Connecting) es = ((self, Reading), acts) \<longrightarrow>
        reconnect_time self = 0"
  proof (intro allI impI)
    fix self0 self :: client and es :: "env list" and acts :: "action list"
    assume r: "run (self0, Connecting) es = ((self, Reading), acts)"
    have "Connecting = Reading \<longrightarrow> reconnect_time self0 = 0" by simp
    from inv_run [OF r this] show "reconnect_time self = 0" by simp
  qed
  have d: "\<forall>self l e self' l' acts.
        reconnect_time self = 0 \<and> clock e \<noteq> 0 \<and> worker_step (self, l) e = ((self', l'), acts) \<longrightarrow>
          (reconnect_time self' \<noteq> 0) =
             ((l = Connecting \<and> conn e = ConnOSError) \<or> (l = Reading \<and> rd e = Line []))
          \<and> (reconnect_time self' \<noteq> 0 \<longrightarrow> reconnect_time self' = clock e \<and> l' = Connecting)"
  proof (intro allI impI)
    fix self self' :: client and l l' :: loc and e :: env and acts :: "action list"
    assume h: "reconnect_time self = 0 \<and> clock e \<noteq> 0 \<and> worker_step (self, l) e = ((self', l'), acts)"
    then have h1: "reconnect_time self = 0" and h2: "clock e \<noteq> 0"
      and h3: "worker_step (self, l) e = ((self', l'), acts)" by blast+
    from clock_set_step [OF h1 h2 h3]
    show "(reconnect_time self' \<noteq> 0) =
             ((l = Connecting \<and> conn e = ConnOSError) \<or> (l = Reading \<and> rd e = Line []))
          \<and> (reconnect_time self' \<noteq> 0 \<longrightarrow> reconnect_time self' = clock e \<and> l' = Connecting)" .
  qed
  have e: "\<forall>self e0 es.
        rd e0 = Line [] \<and> clock e0 \<noteq> 0
        \<and> (\<forall>e\<in>set es. conn e = ConnOSError \<and> clock e - clock e0 \<le> 60) \<longrightarrow>
          run (self, Reading) (e0 # es) =
            ((self\<lparr>reconnect_time := clock e0\<rparr>, Connecting),
             Log Warn ''Lost connection to mochad. Retrying.''
               # concat (map (\<lambda>e. [Sleep 1, Connect ConnOSError]) es))"
    using episode_run by blast
  from a b c d e show ?thesis by (intro conjI)
qed

text \<open>
  A failed attempt, a successful one 50 seconds later, the stream closing 103 seconds
  after that, and a failed attempt 55 seconds later: the worker is still trying, 208
  seconds after the first failure, and its clock is the time the stream closed.
\<close>

theorem reconnect_clock_lifecycle_witness:
  "run (example_client, Connecting)
     [\<lparr>clock = 1442936347, conn = ConnOSError, rd = Line []\<rparr>,
      \<lparr>clock = 1442936397, conn = ConnOk, rd = Line []\<rparr>]
     = ((example_client, Reading),
        [Connect ConnOSError, Log Warn ''Could not connect to mochad. Retrying'',
         Sleep 1, Connect ConnOk, Log Info ''Connected to mochad''])
   \<and> reconnect_time example_client = 0
   \<and> run (example_client, Reading)
     [\<lparr>clock = 1442936500, conn = ConnOk, rd = Line []\<rparr>,
      \<lparr>clock = 1442936555, conn = ConnOSError, rd = Line []\<rparr>]
     = ((example_client\<lparr>reconnect_time := 1442936500\<rparr>, Connecting),
        [Log Warn ''Lost connection to mochad. Retrying.'', Sleep 1, Connect ConnOSError])"
proof -
  let ?e1 = "\<lparr>clock = 1442936347, conn = ConnOSError, rd = Line []\<rparr>"
  let ?e2 = "\<lparr>clock = 1442936397, conn = ConnOk, rd = Line []\<rparr>"
  let ?e3 = "\<lparr>clock = 1442936500, conn = ConnOk, rd = Line []\<rparr>"
  let ?e4 = "\<lparr>clock = 1442936555, conn = ConnOSError, rd = Line []\<rparr>"
  note t = reconnect_clock_lifecycle
  have r: "run (example_client, Connecting) [?e1, ?e2]
     = ((example_client, Reading),
        [Connect ConnOSError, Log Warn ''Could not connect to mochad. Retrying'',
         Sleep 1, Connect ConnOk, Log Info ''Connected to mochad''])"
    by (simp add: example_client_def)
  from t r have u: "reconnect_time example_client = 0" by blast
  have h: "rd ?e3 = Line [] \<and> clock ?e3 \<noteq> 0
        \<and> (\<forall>e\<in>set [?e4]. conn e = ConnOSError \<and> clock e - clock ?e3 \<le> 60)"
    by simp
  from t have "rd ?e3 = Line [] \<and> clock ?e3 \<noteq> 0
        \<and> (\<forall>e\<in>set [?e4]. conn e = ConnOSError \<and> clock e - clock ?e3 \<le> 60) \<longrightarrow>
          run (example_client, Reading) (?e3 # [?e4]) =
            ((example_client\<lparr>reconnect_time := clock ?e3\<rparr>, Connecting),
             Log Warn ''Lost connection to mochad. Retrying.''
               # concat (map (\<lambda>e. [Sleep 1, Connect ConnOSError]) [?e4]))"
    by blast
  with h have "run (example_client, Reading) (?e3 # [?e4]) =
            ((example_client\<lparr>reconnect_time := clock ?e3\<rparr>, Connecting),
             Log Warn ''Lost connection to mochad. Retrying.''
               # concat (map (\<lambda>e. [Sleep 1, Connect ConnOSError]) [?e4]))"
    by blast
  then have f: "run (example_client, Reading) [?e3, ?e4]
     = ((example_client\<lparr>reconnect_time := 1442936500\<rparr>, Connecting),
        [Log Warn ''Lost connection to mochad. Retrying.'', Sleep 1, Connect ConnOSError])"
    by (simp del: run.simps worker_step.simps)
  from r u f show ?thesis by (intro conjI)
qed

text \<open>
  C3 does not hold of the code. An exception of \<^verbatim>\<open>readline\<close> (a connection reset by the
  peer) or of \<^verbatim>\<open>decode\<close> (a line that is not valid UTF-8) is caught nowhere in
  \<^verbatim>\<open>worker\<close>: it ends the worker, with no reconnect and without 60 seconds of failed
  attempts, and the lines that follow are never read. Only \<^verbatim>\<open>OSError\<close> raised by
  \<^verbatim>\<open>connect\<close> is caught (line 101).
\<close>

theorem worker_stops_on_read_exception:
  "run (example_client, Connecting)
     [\<lparr>clock = 1442936347, conn = ConnOk, rd = Line []\<rparr>,
      \<lparr>clock = 1442936348, conn = ConnOk, rd = ReadRaised\<rparr>,
      \<lparr>clock = 1442936349, conn = ConnOk, rd = Line line_contact\<rparr>]
     = ((example_client, Raised ConnectionError),
        [Connect ConnOk, Log Info ''Connected to mochad''])
   \<and> run (example_client, Connecting)
     [\<lparr>clock = 1442936347, conn = ConnOk, rd = Line []\<rparr>,
      \<lparr>clock = 1442936348, conn = ConnOk, rd = Undecodable\<rparr>,
      \<lparr>clock = 1442936349, conn = ConnOk, rd = Line line_contact\<rparr>]
     = ((example_client, Raised UnicodeDecodeError),
        [Connect ConnOk, Log Info ''Connected to mochad''])"
  by (simp add: example_client_def)

end
